theory Spec2Isabelle
  imports Main "HOL-Library.Word"
begin

section \<open>Scoped thread execution of MRtrix (lib/thread.h)\<close>

text \<open>
  The header launches worker threads bound to the lifetime of a handle object. The model
  follows it class by class. What a call does to the rest of the program is recorded in a
  trace: the mutations of the process-wide backend, the units started with
  \<^verbatim>\<open>std::async\<close>, the futures read with \<^verbatim>\<open>get()\<close>, the failures displayed and
  the \<^verbatim>\<open>DEBUG\<close> messages, in the order the code performs them.
\<close>

subsection \<open>Failures and outcomes\<close>

text \<open>\<^verbatim>\<open>MR::Exception\<close>, with its message.\<close>

datatype exception = Exception string

text \<open>
  What a \<^verbatim>\<open>throw\<close> carries: an \<^verbatim>\<open>MR::Exception\<close>, or an object of any other type
  (\<^verbatim>\<open>std::bad_alloc\<close>, \<^verbatim>\<open>std::runtime_error\<close>, ...), which a handler
  \<^verbatim>\<open>catch (Exception& E)\<close> does not match.
\<close>

datatype thrown = MR exception | Other

text \<open>How the entry operation \<^verbatim>\<open>execute()\<close> of one functor object ends.\<close>

datatype outcome = Returned | Raised thrown

text \<open>
  How a call of the header ends: it returns, it throws, it ends the process through
  \<^verbatim>\<open>std::terminate\<close> (an exception leaving a destructor), or its behaviour is undefined
  (a null \<^verbatim>\<open>backend\<close> dereferenced, \<^verbatim>\<open>get()\<close> on a future without shared state).
\<close>

datatype completion = Normal | Throw thrown | Terminate | Undefined

text \<open>
  The functor objects a unit can be bound to: an object of the caller, named by its
  address, or element \<open>i\<close> of the vector \<^verbatim>\<open>functors\<close> a group handle owns.
\<close>

datatype 'a obj = Caller 'a | Element nat

datatype 'a event =
    New_backend
  | Inc_refcount
  | Dec_refcount
  | Delete_backend
  | Debug string
  | Async "'a obj"
  | Get "'a obj"
  | Display exception

subsection \<open>The backend: \<^verbatim>\<open>class __Backend\<close>\<close>

text \<open>
  \<^verbatim>\<open>size_t refcount\<close> is a 64-bit unsigned integer. The member \<^verbatim>\<open>mutex\<close> does not
  appear in the sequential model: the guard of both operations is an unnamed temporary,
  which locks and unlocks the free mutex within its own statement. The interleaving model
  further down keeps the mutex.
\<close>

record Backend =
  refcount :: "64 word"

text \<open>
  The program state the header works on: the static pointer \<^verbatim>\<open>__Backend::backend\<close>
  (\<open>None\<close> is \<^verbatim>\<open>nullptr\<close>) and the trace.
\<close>

record 'a world =
  backend :: "Backend option"
  trace :: "'a event list"

definition emit :: "'a event \<Rightarrow> 'a world \<Rightarrow> 'a world" where
  "emit e w = w\<lparr>trace := trace w @ [e]\<rparr>"

text \<open>
  Modelled from the spec: the constructor \<^verbatim>\<open>__Backend::__Backend()\<close> is declared in
  thread.h and defined elsewhere in the library. The spec has the first registration take
  the count from 0 to 1, so a new backend starts with count 0.
\<close>

definition Backend_ctor :: Backend where
  "Backend_ctor = \<lparr>refcount = 0\<rparr>"

text \<open>
  \<^verbatim>\<open>if (!backend) backend = new __Backend;
  std::lock_guard<std::mutex> (__Backend::get_lock());
  ++backend->refcount;\<close>
\<close>

definition register_thread :: "'a world \<Rightarrow> 'a world" where
  "register_thread w =
     (let w1 = (if backend w = None
                then emit New_backend (w\<lparr>backend := Some Backend_ctor\<rparr>)
                else w)
      in emit Inc_refcount
           (w1\<lparr>backend := map_option (\<lambda>b. b\<lparr>refcount := refcount b + 1\<rparr>) (backend w1)\<rparr>))"

text \<open>
  \<^verbatim>\<open>std::lock_guard<std::mutex> (__Backend::get_lock());
  --backend->refcount;
  if (!backend->refcount) { delete backend; backend = nullptr; }\<close>
  With \<^verbatim>\<open>backend\<close> null, \<^verbatim>\<open>get_lock()\<close> dereferences a null pointer.
\<close>

definition unregister_thread :: "'a world \<Rightarrow> completion \<times> 'a world" where
  "unregister_thread w =
     (case backend w of
        None \<Rightarrow> (Undefined, w)
      | Some b \<Rightarrow>
          (let b1 = b\<lparr>refcount := refcount b - 1\<rparr>;
               w1 = emit Dec_refcount (w\<lparr>backend := Some b1\<rparr>)
           in if refcount b1 = 0
              then (Normal, emit Delete_backend (w1\<lparr>backend := None\<rparr>))
              else (Normal, w1)))"

text \<open>A sequence of calls of the two operations, stopping at the first that does not return.\<close>

datatype op = Reg | Unreg

fun run_ops :: "op list \<Rightarrow> 'a world \<Rightarrow> completion \<times> 'a world" where
  "run_ops [] w = (Normal, w)"
| "run_ops (Reg # ops) w = run_ops ops (register_thread w)"
| "run_ops (Unreg # ops) w =
     (case unregister_thread w of
        (Normal, w1) \<Rightarrow> run_ops ops w1
      | (c, w1) \<Rightarrow> (c, w1))"

text \<open>
  The contract of the registry in the spec's words, over the number \<open>n\<close> of live
  registrations: a registration constructs the state on the transition from 0 to 1, an
  unregistration tears it down on the transition to 0.
\<close>

fun spec_registry :: "nat \<Rightarrow> op list \<Rightarrow> 'a event list" where
  "spec_registry n [] = []"
| "spec_registry n (Reg # ops) =
     (if n = 0 then [New_backend] else []) @ [Inc_refcount] @ spec_registry (Suc n) ops"
| "spec_registry n (Unreg # ops) =
     [Dec_refcount] @ (if n = 1 then [Delete_backend] else []) @ spec_registry (n - 1) ops"

text \<open>
  \<open>live n ops\<close>: the registrations live after \<open>ops\<close>, from \<open>n\<close> live ones.
  \<open>nested n ops\<close>: no unregistration of \<open>ops\<close> comes without a live registration.
\<close>

fun live :: "nat \<Rightarrow> op list \<Rightarrow> nat" where
  "live n [] = n"
| "live n (Reg # ops) = live (Suc n) ops"
| "live n (Unreg # ops) = live (n - 1) ops"

fun nested :: "nat \<Rightarrow> op list \<Rightarrow> bool" where
  "nested n [] = True"
| "nested n (Reg # ops) = nested (Suc n) ops"
| "nested n (Unreg # ops) = (0 < n \<and> nested (n - 1) ops)"

text \<open>The backend pointer when \<open>n\<close> registrations are live.\<close>

definition backend_of :: "nat \<Rightarrow> Backend option" where
  "backend_of n = (if n = 0 then None else Some \<lparr>refcount = of_nat n\<rparr>)"

subsection \<open>The environment of the header\<close>

text \<open>
  What the header takes from the rest of the program: how the entry operation of each
  functor object ends (\<open>entry\<close>), the value of each functor object of the caller, from
  which copies are made (\<open>object\<close>), \<^verbatim>\<open>MR::str\<close>, which renders a number
  (\<open>str\<close>, defined elsewhere in the library), and for each of the two vectors of a
  group handle the largest number of elements it can be built with: \<^verbatim>\<open>max_size()\<close> of
  \<^verbatim>\<open>std::vector<F>\<close> and of \<^verbatim>\<open>std::vector<std::future<void>>\<close>, or less when
  memory runs out before.
\<close>

record ('a, 'f) env =
  entry :: "'a obj \<Rightarrow> outcome"
  object :: "'a \<Rightarrow> 'f"
  str :: "64 word \<Rightarrow> string"
  functors_max_size :: nat
  threads_max_size :: nat

text \<open>The macro \<^verbatim>\<open>DEBUG (msg)\<close> and \<^verbatim>\<open>Exception::display()\<close>, as trace events.\<close>

definition DEBUG :: "string \<Rightarrow> 'a world \<Rightarrow> 'a world" where
  "DEBUG msg w = emit (Debug msg) w"

definition display :: "exception \<Rightarrow> 'a world \<Rightarrow> 'a world" where
  "display E w = emit (Display E) w"

text \<open>A name between double quotes, as in \<^verbatim>\<open>"\"" + name + "\""\<close>.\<close>

definition quoted :: "string \<Rightarrow> string" where
  "quoted nm = CHR 0x22 # nm @ [CHR 0x22]"

subsection \<open>\<^verbatim>\<open>class __thread_base\<close>\<close>

record thread_base =
  name :: string

definition thread_base_ctor :: "'a world \<Rightarrow> 'a world" where
  "thread_base_ctor w = register_thread w"

definition thread_base_dtor :: "'a world \<Rightarrow> completion \<times> 'a world" where
  "thread_base_dtor w = unregister_thread w"

subsection \<open>\<^verbatim>\<open>std::future<void>\<close>\<close>

text \<open>
  A future returned by \<^verbatim>\<open>std::async\<close> refers to the shared state of the unit that runs
  \<^verbatim>\<open>execute()\<close> on one object; \<^verbatim>\<open>get()\<close> waits until that unit has terminated,
  hands over its outcome and leaves the future without shared state.
\<close>

datatype 'a future = Shared_state "'a obj" | No_state

fun valid :: "'a future \<Rightarrow> bool" where
  "valid (Shared_state r) = True"
| "valid No_state = False"

subsection \<open>\<^verbatim>\<open>class __single_thread\<close>\<close>

record 'a single_thread = thread_base +
  thread :: "'a future"

text \<open>
  The constructor: the base class registers, then
  \<^verbatim>\<open>thread = std::async (std::launch::async, &F::execute, &functor)\<close>.
\<close>

definition single_thread_ctor ::
  "'a \<Rightarrow> string \<Rightarrow> 'a world \<Rightarrow> 'a single_thread \<times> 'a world" where
  "single_thread_ctor functor nm w =
     (let w1 = thread_base_ctor w;
          w2 = DEBUG (''launching thread '' @ quoted nm @ ''...'') w1;
          w3 = emit (Async (Caller functor)) w2
      in (\<lparr>name = nm, thread = Shared_state (Caller functor)\<rparr>, w3))"

text \<open>\<^verbatim>\<open>wait()\<close>: \<^verbatim>\<open>thread.get()\<close> between two debug messages.\<close>

definition single_thread_wait ::
  "('a, 'f) env \<Rightarrow> 'a single_thread \<Rightarrow> 'a world
     \<Rightarrow> completion \<times> 'a single_thread \<times> 'a world" where
  "single_thread_wait env h w =
     (let w1 = DEBUG (''waiting for completion of thread '' @ quoted (name h) @ ''...'') w
      in case thread h of
           No_state \<Rightarrow> (Undefined, h, w1)
         | Shared_state r \<Rightarrow>
             (let w2 = emit (Get r) w1;
                  h1 = h\<lparr>thread := No_state\<rparr>
              in case entry env r of
                   Raised t \<Rightarrow> (Throw t, h1, w2)
                 | Returned \<Rightarrow>
                     (Normal, h1,
                      DEBUG (''thread '' @ quoted (name h) @ '' completed OK'') w2)))"

text \<open>
  The destructor:
  \<^verbatim>\<open>if (thread.valid()) { try { wait(); } catch (Exception& E) { E.display(); } }\<close>,
  then the destructor of the base class. A destructor is \<^verbatim>\<open>noexcept\<close>: an exception
  the handler does not match ends the process.
\<close>

definition single_thread_dtor ::
  "('a, 'f) env \<Rightarrow> 'a single_thread \<Rightarrow> 'a world \<Rightarrow> completion \<times> 'a world" where
  "single_thread_dtor env h w =
     (if valid (thread h)
      then (case single_thread_wait env h w of
              (Normal, h1, w1) \<Rightarrow> thread_base_dtor w1
            | (Throw (MR E), h1, w1) \<Rightarrow> thread_base_dtor (display E w1)
            | (Throw Other, h1, w1) \<Rightarrow> (Terminate, w1)
            | (c, h1, w1) \<Rightarrow> (c, w1))
      else thread_base_dtor w)"

subsection \<open>\<^verbatim>\<open>class __multi_thread\<close>\<close>

record ('a, 'f) multi_thread = thread_base +
  threads :: "'a future list"
  functors :: "'f list"

text \<open>
  A vector holds a number of elements up to its limit, which is at most
  \<^verbatim>\<open>PTRDIFF_MAX\<close> whatever the element type.
\<close>

definition PTRDIFF_MAX :: nat where
  "PTRDIFF_MAX = 2 ^ 63 - 1"

definition fits :: "nat \<Rightarrow> 64 word \<Rightarrow> bool" where
  "fits limit n = (unat n \<le> limit \<and> unat n \<le> PTRDIFF_MAX)"

text \<open>
  \<^verbatim>\<open>std::vector<F> (n, value)\<close>: \<open>n\<close> copies of the value; with a count above the
  limit the constructor throws \<^verbatim>\<open>std::length_error\<close> or \<^verbatim>\<open>std::bad_alloc\<close>.
  \<^verbatim>\<open>reserve (n)\<close> throws in the same way and has no other effect on the elements.
\<close>

definition vector_fill :: "nat \<Rightarrow> 64 word \<Rightarrow> 'f \<Rightarrow> thrown + 'f list" where
  "vector_fill limit n v = (if fits limit n then Inr (replicate (unat n) v) else Inl Other)"

definition vector_reserve :: "nat \<Rightarrow> 64 word \<Rightarrow> thrown option" where
  "vector_reserve limit n = (if fits limit n then None else Some Other)"

text \<open>
  \<^verbatim>\<open>for (auto& f : functors)
    threads.push_back (std::async (std::launch::async, &F::execute, &f));\<close>
  The index \<open>i\<close> is the position of \<open>f\<close> in \<^verbatim>\<open>functors\<close>.
\<close>

fun launch_copies ::
  "nat \<Rightarrow> 'f list \<Rightarrow> 'a future list \<Rightarrow> 'a world \<Rightarrow> 'a future list \<times> 'a world" where
  "launch_copies i [] ts w = (ts, w)"
| "launch_copies i (f # fs) ts w =
     launch_copies (Suc i) fs (ts @ [Shared_state (Element i)]) (emit (Async (Element i)) w)"

text \<open>
  The constructor: the base class registers, \<^verbatim>\<open>functors (nthreads-1, functor)\<close> copies
  the functor (the subtraction is on \<^verbatim>\<open>size_t\<close> and wraps at 0), then the body runs:
  the debug message, \<^verbatim>\<open>threads.reserve (nthreads)\<close>, the launch of the copies and the
  launch of the caller's functor itself. When one of the two vectors cannot be built the
  base class is destroyed again and the exception leaves the constructor; no unit has
  been started by then.
\<close>

definition multi_thread_ctor ::
  "('a, 'f) env \<Rightarrow> 'a \<Rightarrow> 64 word \<Rightarrow> string \<Rightarrow> 'a world
     \<Rightarrow> (thrown + ('a, 'f) multi_thread) \<times> 'a world" where
  "multi_thread_ctor env functor nthreads nm w =
     (let w1 = thread_base_ctor w
      in case vector_fill (functors_max_size env) (nthreads - 1) (object env functor) of
           Inl t \<Rightarrow> (Inl t, snd (thread_base_dtor w1))
         | Inr fs \<Rightarrow>
             (let w2 = DEBUG (''launching '' @ str env nthreads @ '' threads ''
                                @ quoted nm @ ''...'') w1
              in case vector_reserve (threads_max_size env) nthreads of
                   Some t \<Rightarrow> (Inl t, snd (thread_base_dtor w2))
                 | None \<Rightarrow>
                     (let (ts, w3) = launch_copies 0 fs [] w2;
                          w4 = emit (Async (Caller functor)) w3
                      in (Inr \<lparr>name = nm,
                                threads = ts @ [Shared_state (Caller functor)],
                                functors = fs\<rparr>, w4))))"

text \<open>
  The loop of \<^verbatim>\<open>wait()\<close> over \<^verbatim>\<open>threads\<close>:
  \<^verbatim>\<open>if (!t.valid()) continue;
  try { t.get(); }
  catch (Exception& E) { exception_thrown = true; E.display(); }\<close>
  The result holds an exception that left the loop (one the handler does not match), the
  futures as the loop leaves them, the flag \<^verbatim>\<open>exception_thrown\<close> and the state.
\<close>

fun wait_loop ::
  "('a, 'f) env \<Rightarrow> 'a future list \<Rightarrow> bool \<Rightarrow> 'a world
     \<Rightarrow> thrown option \<times> 'a future list \<times> bool \<times> 'a world" where
  "wait_loop env [] exception_thrown w = (None, [], exception_thrown, w)"
| "wait_loop env (No_state # ts) exception_thrown w =
     (case wait_loop env ts exception_thrown w of
        (x, ts1, b, w1) \<Rightarrow> (x, No_state # ts1, b, w1))"
| "wait_loop env (Shared_state r # ts) exception_thrown w =
     (case entry env r of
        Returned \<Rightarrow>
          (case wait_loop env ts exception_thrown (emit (Get r) w) of
             (x, ts1, b, w1) \<Rightarrow> (x, No_state # ts1, b, w1))
      | Raised (MR E) \<Rightarrow>
          (case wait_loop env ts True (display E (emit (Get r) w)) of
             (x, ts1, b, w1) \<Rightarrow> (x, No_state # ts1, b, w1))
      | Raised Other \<Rightarrow> (Some Other, No_state # ts, exception_thrown, emit (Get r) w))"

definition multi_thread_wait ::
  "('a, 'f) env \<Rightarrow> ('a, 'f) multi_thread \<Rightarrow> 'a world
     \<Rightarrow> completion \<times> ('a, 'f) multi_thread \<times> 'a world" where
  "multi_thread_wait env h w =
     (let w1 = DEBUG (''waiting for completion of threads '' @ quoted (name h) @ ''...'') w
      in case wait_loop env (threads h) False w1 of
           (Some t, ts, b, w2) \<Rightarrow> (Throw t, h\<lparr>threads := ts\<rparr>, w2)
         | (None, ts, b, w2) \<Rightarrow>
             (if b
              then (Throw (MR (Exception (''exception thrown from one or more threads ''
                                            @ quoted (name h)))),
                    h\<lparr>threads := ts\<rparr>, w2)
              else (Normal, h\<lparr>threads := ts\<rparr>,
                    DEBUG (''threads '' @ quoted (name h) @ '' completed OK'') w2)))"

text \<open>
  The destructor: \<^verbatim>\<open>try { wait(); } catch (Exception& E) { E.display(); }\<close>, then the
  destructor of the base class.
\<close>

definition multi_thread_dtor ::
  "('a, 'f) env \<Rightarrow> ('a, 'f) multi_thread \<Rightarrow> 'a world \<Rightarrow> completion \<times> 'a world" where
  "multi_thread_dtor env h w =
     (case multi_thread_wait env h w of
        (Normal, h1, w1) \<Rightarrow> thread_base_dtor w1
      | (Throw (MR E), h1, w1) \<Rightarrow> thread_base_dtor (display E w1)
      | (Throw Other, h1, w1) \<Rightarrow> (Terminate, w1)
      | (c, h1, w1) \<Rightarrow> (c, w1))"

subsection \<open>The launcher: \<^verbatim>\<open>__Multi\<close>, \<^verbatim>\<open>multi\<close>, \<^verbatim>\<open>__run\<close> and \<^verbatim>\<open>run\<close>\<close>

text \<open>
  \<^verbatim>\<open>class __Multi\<close>: a reference to the functor (the address of the caller's object) and
  the number of threads.
\<close>

record 'a Multi =
  functor_ref :: 'a
  num :: "64 word"

definition multi :: "'a \<Rightarrow> 64 word \<Rightarrow> 'a Multi" where
  "multi functor nthreads = \<lparr>functor_ref = functor, num = nthreads\<rparr>"

text \<open>
  The three call operators of \<^verbatim>\<open>__Multi\<close>, each \<^verbatim>\<open>{ assert (0); return false; }\<close>.
  \<open>ndebug\<close> says whether the header is compiled with \<^verbatim>\<open>NDEBUG\<close>, which turns
  \<^verbatim>\<open>assert\<close> into nothing.
\<close>

datatype 'r call = Assertion_failed | Returns 'r

definition Multi_call_const :: "bool \<Rightarrow> 'a Multi \<Rightarrow> 'x \<Rightarrow> bool call" where
  "Multi_call_const ndebug m x = (if ndebug then Returns False else Assertion_failed)"

definition Multi_call_ref :: "bool \<Rightarrow> 'a Multi \<Rightarrow> 'x \<Rightarrow> bool call" where
  "Multi_call_ref ndebug m x = (if ndebug then Returns False else Assertion_failed)"

definition Multi_call_const_ref :: "bool \<Rightarrow> 'a Multi \<Rightarrow> 'x \<Rightarrow> 'y \<Rightarrow> bool call" where
  "Multi_call_const_ref ndebug m x y = (if ndebug then Returns False else Assertion_failed)"

text \<open>
  \<^verbatim>\<open>__run<Functor>::operator()\<close>, the primary template: \<^verbatim>\<open>return { functor, name }\<close>
  builds a \<^verbatim>\<open>__single_thread\<close>.
\<close>

definition run_op :: "'a \<Rightarrow> string \<Rightarrow> 'a world \<Rightarrow> 'a single_thread \<times> 'a world" where
  "run_op functor nm w = single_thread_ctor functor nm w"

text \<open>
  \<^verbatim>\<open>__run<__Multi<Functor>>::operator()\<close>, the specialisation:
  \<^verbatim>\<open>return { functor.functor, functor.num, name }\<close> builds a \<^verbatim>\<open>__multi_thread\<close>.
\<close>

definition run_Multi_op ::
  "('a, 'f) env \<Rightarrow> 'a Multi \<Rightarrow> string \<Rightarrow> 'a world
     \<Rightarrow> (thrown + ('a, 'f) multi_thread) \<times> 'a world" where
  "run_Multi_op env m nm w = multi_thread_ctor env (functor_ref m) (num m) nm w"

text \<open>
  \<^verbatim>\<open>run (functor, name)\<close> calls \<^verbatim>\<open>__run<...>() (functor, name)\<close>. The argument type
  selects the template, so the function is a pair of functions of different types: one
  for a functor, one for a \<^verbatim>\<open>__Multi\<close>.
\<close>

definition run :: "'a \<Rightarrow> string \<Rightarrow> 'a world \<Rightarrow> 'a single_thread \<times> 'a world" where
  "run functor nm w = run_op functor nm w"

definition run_Multi ::
  "('a, 'f) env \<Rightarrow> 'a Multi \<Rightarrow> string \<Rightarrow> 'a world
     \<Rightarrow> (thrown + ('a, 'f) multi_thread) \<times> 'a world" where
  "run_Multi env m nm w = run_Multi_op env m nm w"

subsection \<open>The backend under interleaving\<close>

text \<open>
  Threads that call \<^verbatim>\<open>register_thread()\<close> and \<^verbatim>\<open>unregister_thread()\<close> at the
  same time share the \<^verbatim>\<open>__Backend\<close> objects on the heap and the static pointer to
  the current one. Here an object keeps its mutex, and a deleted object leaves \<open>None\<close>
  at its address.
\<close>

record Backend_obj =
  obj_refcount :: "64 word"
  obj_mutex :: bool

record shared =
  heap :: "Backend_obj option list"
  backend_ptr :: "nat option"

text \<open>
  The program points of a thread inside the two operations, one for each statement that
  reads or writes shared state. The guard is an unnamed temporary: it locks, and its
  destructor unlocks at the end of the same statement, before the next statement runs.
  The point between the two carries the address of the object whose mutex the guard holds.
\<close>

datatype pc =
    Reg_test
  | Reg_new
  | Reg_lock
  | Reg_unlock nat
  | Reg_inc
  | Unreg_lock
  | Unreg_unlock nat
  | Unreg_dec
  | Unreg_test
  | Unreg_delete
  | Unreg_null
  | Done

text \<open>\<^verbatim>\<open>*backend\<close>: the current object and its address; \<open>None\<close> when the pointer is null or dangling.\<close>

definition deref :: "shared \<Rightarrow> (nat \<times> Backend_obj) option" where
  "deref s =
     (case backend_ptr s of
        None \<Rightarrow> None
      | Some a \<Rightarrow>
          (if a < length (heap s)
           then (case heap s ! a of None \<Rightarrow> None | Some b \<Rightarrow> Some (a, b))
           else None))"

definition store :: "nat \<Rightarrow> Backend_obj option \<Rightarrow> shared \<Rightarrow> shared" where
  "store a b s = s\<lparr>heap := (heap s)[a := b]\<rparr>"

text \<open>What one step can do: move on, wait for the mutex, or run into undefined behaviour.\<close>

datatype 'a progress = Next 'a | Blocked | UB

fun step :: "shared \<Rightarrow> pc \<Rightarrow> (shared \<times> pc) progress" where
  "step s Reg_test = Next (s, if backend_ptr s = None then Reg_new else Reg_lock)"
| "step s Reg_new =
     Next (s\<lparr>heap := heap s @ [Some \<lparr>obj_refcount = refcount Backend_ctor, obj_mutex = False\<rparr>],
             backend_ptr := Some (length (heap s))\<rparr>, Reg_lock)"
| "step s Reg_lock =
     (case deref s of
        None \<Rightarrow> UB
      | Some (a, b) \<Rightarrow>
          if obj_mutex b then Blocked
          else Next (store a (Some (b\<lparr>obj_mutex := True\<rparr>)) s, Reg_unlock a))"
| "step s (Reg_unlock a) =
     (if a < length (heap s)
      then (case heap s ! a of
              None \<Rightarrow> UB
            | Some b \<Rightarrow> Next (store a (Some (b\<lparr>obj_mutex := False\<rparr>)) s, Reg_inc))
      else UB)"
| "step s Reg_inc =
     (case deref s of
        None \<Rightarrow> UB
      | Some (a, b) \<Rightarrow> Next (store a (Some (b\<lparr>obj_refcount := obj_refcount b + 1\<rparr>)) s, Done))"
| "step s Unreg_lock =
     (case deref s of
        None \<Rightarrow> UB
      | Some (a, b) \<Rightarrow>
          if obj_mutex b then Blocked
          else Next (store a (Some (b\<lparr>obj_mutex := True\<rparr>)) s, Unreg_unlock a))"
| "step s (Unreg_unlock a) =
     (if a < length (heap s)
      then (case heap s ! a of
              None \<Rightarrow> UB
            | Some b \<Rightarrow> Next (store a (Some (b\<lparr>obj_mutex := False\<rparr>)) s, Unreg_dec))
      else UB)"
| "step s Unreg_dec =
     (case deref s of
        None \<Rightarrow> UB
      | Some (a, b) \<Rightarrow>
          Next (store a (Some (b\<lparr>obj_refcount := obj_refcount b - 1\<rparr>)) s, Unreg_test))"
| "step s Unreg_test =
     (case deref s of
        None \<Rightarrow> UB
      | Some (a, b) \<Rightarrow> Next (s, if obj_refcount b = 0 then Unreg_delete else Done))"
| "step s Unreg_delete =
     (case deref s of
        None \<Rightarrow> (if backend_ptr s = None then Next (s, Unreg_null) else UB)
      | Some (a, b) \<Rightarrow> Next (store a None s, Unreg_null))"
| "step s Unreg_null = Next (s\<lparr>backend_ptr := None\<rparr>, Done)"
| "step s Done = Next (s, Done)"

text \<open>
  A schedule names, step by step, the thread that runs next. A thread that waits for the
  mutex lets its turn pass. The result is \<open>None\<close> when a step has undefined behaviour.
\<close>

fun run_schedule :: "nat list \<Rightarrow> shared \<times> pc list \<Rightarrow> (shared \<times> pc list) option" where
  "run_schedule [] c = Some c"
| "run_schedule (t # sched) (s, pcs) =
     (if t < length pcs
      then (case step s (pcs ! t) of
              Next (s1, p) \<Rightarrow> run_schedule sched (s1, pcs[t := p])
            | Blocked \<Rightarrow> run_schedule sched (s, pcs)
            | UB \<Rightarrow> None)
      else run_schedule sched (s, pcs))"

text \<open>The backend of the sequential model that a shared state stands for.\<close>

definition registry_of :: "shared \<Rightarrow> Backend option" where
  "registry_of s = map_option (\<lambda>(a, b). \<lparr>refcount = obj_refcount b\<rparr>) (deref s)"

text \<open>No thread is inside an operation: the pointer is null, or the current object is unlocked.\<close>

definition quiescent :: "shared \<Rightarrow> bool" where
  "quiescent s =
     (case backend_ptr s of
        None \<Rightarrow> True
      | Some a \<Rightarrow> (case deref s of None \<Rightarrow> False | Some (a1, b) \<Rightarrow> \<not> obj_mutex b))"

subsection \<open>Reading handles and traces\<close>

text \<open>The objects whose units a list of futures still refers to, in order.\<close>

fun pending :: "'a future list \<Rightarrow> 'a obj list" where
  "pending [] = []"
| "pending (Shared_state r # ts) = r # pending ts"
| "pending (No_state # ts) = pending ts"

text \<open>
  The units started, the units joined and the failures displayed in a trace, in order.
\<close>

fun started :: "'a event list \<Rightarrow> 'a obj list" where
  "started [] = []"
| "started (Async r # evs) = r # started evs"
| "started (e # evs) = started evs"

fun joined :: "'a event list \<Rightarrow> 'a obj list" where
  "joined [] = []"
| "joined (Get r # evs) = r # joined evs"
| "joined (e # evs) = joined evs"

fun displayed :: "'a event list \<Rightarrow> exception list" where
  "displayed [] = []"
| "displayed (Display E # evs) = E # displayed evs"
| "displayed (e # evs) = displayed evs"

text \<open>
  What observing one worker leaves in the trace: the read of its future, followed by the
  display of its failure when it raised an \<^verbatim>\<open>MR::Exception\<close>.
\<close>

definition observed :: "('a, 'f) env \<Rightarrow> 'a obj \<Rightarrow> 'a event list" where
  "observed env r =
     Get r # (case entry env r of
                Returned \<Rightarrow> []
              | Raised (MR E) \<Rightarrow> [Display E]
              | Raised Other \<Rightarrow> [])"

text \<open>
  A worker failed with an \<^verbatim>\<open>MR::Exception\<close>; a worker threw an object of another
  type.
\<close>

definition failed :: "('a, 'f) env \<Rightarrow> 'a obj \<Rightarrow> bool" where
  "failed env r = (entry env r \<noteq> Returned)"

definition foreign :: "('a, 'f) env \<Rightarrow> 'a obj \<Rightarrow> bool" where
  "foreign env r = (entry env r = Raised Other)"

text \<open>The exception \<^verbatim>\<open>wait()\<close> of a group throws after the loop.\<close>

definition group_failure :: "string \<Rightarrow> exception" where
  "group_failure nm = Exception (''exception thrown from one or more threads '' @ quoted nm)"

text \<open>The failures of the workers \<open>rs\<close> that \<^verbatim>\<open>catch (Exception& E)\<close> matches, in order.\<close>

definition failure_of :: "('a, 'f) env \<Rightarrow> 'a obj \<Rightarrow> exception list" where
  "failure_of env r =
     (case entry env r of
        Returned \<Rightarrow> []
      | Raised (MR E) \<Rightarrow> [E]
      | Raised Other \<Rightarrow> [])"

definition failures :: "('a, 'f) env \<Rightarrow> 'a obj list \<Rightarrow> exception list" where
  "failures env rs = concat (map (failure_of env) rs)"

text \<open>The value of \<^verbatim>\<open>refcount\<close>, read as 0 when there is no backend.\<close>

definition count :: "'a world \<Rightarrow> 64 word" where
  "count w = (case backend w of None \<Rightarrow> 0 | Some b \<Rightarrow> refcount b)"

subsection \<open>Example inputs\<close>

text \<open>
  A program start (no backend, empty trace), five behaviours of the functor objects
  (every entry operation returns; the one of the first copy raises an
  \<^verbatim>\<open>MR::Exception\<close>; the one of the first copy throws an object of another type; every
  entry operation throws an object of another type; the one of the first copy throws an
  object of another type and every other one raises an \<^verbatim>\<open>MR::Exception\<close>), each with
  room for 1024 elements in either vector, and the group handle that a launch of two
  threads on the caller's functor 0 under the name \<open>g\<close> builds.
\<close>

definition start :: "nat world" where
  "start = \<lparr>backend = None, trace = []\<rparr>"

definition env_ok :: "(nat, unit) env" where
  "env_ok = \<lparr>entry = (\<lambda>r. Returned), object = (\<lambda>a. ()), str = (\<lambda>n. ''N''),
      functors_max_size = 1024, threads_max_size = 1024\<rparr>"

definition env_fail :: "(nat, unit) env" where
  "env_fail =
     \<lparr>entry = (\<lambda>r. if r = Element 0 then Raised (MR (Exception ''boom'')) else Returned),
      object = (\<lambda>a. ()), str = (\<lambda>n. ''N''),
      functors_max_size = 1024, threads_max_size = 1024\<rparr>"

definition env_foreign :: "(nat, unit) env" where
  "env_foreign =
     \<lparr>entry = (\<lambda>r. if r = Element 0 then Raised Other else Returned),
      object = (\<lambda>a. ()), str = (\<lambda>n. ''N''),
      functors_max_size = 1024, threads_max_size = 1024\<rparr>"

definition two_workers :: "(nat, unit) multi_thread" where
  "two_workers =
     \<lparr>name = ''g'',
      threads = [Shared_state (Element 0), Shared_state (Caller 0)],
      functors = [()]\<rparr>"

definition env_all_foreign :: "(nat, unit) env" where
  "env_all_foreign = \<lparr>entry = (\<lambda>r. Raised Other), object = (\<lambda>a. ()), str = (\<lambda>n. ''N''),
      functors_max_size = 1024, threads_max_size = 1024\<rparr>"

definition env_foreign_then_fail :: "(nat, unit) env" where
  "env_foreign_then_fail =
     \<lparr>entry = (\<lambda>r. if r = Element 0 then Raised Other
                    else Raised (MR (Exception ''boom''))),
      object = (\<lambda>a. ()), str = (\<lambda>n. ''N''),
      functors_max_size = 1024, threads_max_size = 1024\<rparr>"

section \<open>Properties\<close>

subsection \<open>Reference counting of the backend\<close>

lemma of_nat_refcount_zero:
  "n < 2 ^ 64 \<Longrightarrow> (of_nat n = (0 :: 64 word)) = (n = 0)"
proof
  assume "n < 2 ^ 64" and "of_nat n = (0 :: 64 word)"
  then have "unat (0 :: 64 word) = n"
    by (intro of_nat_inverse) simp_all
  then show "n = 0" by simp
next
  assume "n = 0" then show "of_nat n = (0 :: 64 word)" by simp
qed

lemma register_thread_step:
  "backend w = backend_of n \<Longrightarrow>
   register_thread w =
     w\<lparr>backend := backend_of (Suc n),
       trace := trace w @ (if n = 0 then [New_backend] else []) @ [Inc_refcount]\<rparr>"
  by (simp add: register_thread_def backend_of_def emit_def Backend_ctor_def)

lemma unregister_thread_Some:
  "backend w = Some \<lparr>refcount = c\<rparr> \<Longrightarrow>
   unregister_thread w =
     (Normal, w\<lparr>backend := (if c - 1 = 0 then None else Some \<lparr>refcount = c - 1\<rparr>),
               trace := trace w @ [Dec_refcount] @ (if c - 1 = 0 then [Delete_backend] else [])\<rparr>)"
  by (simp add: unregister_thread_def emit_def)

lemma unregister_thread_step:
  assumes "backend w = backend_of n" and "0 < n" and "n < 2 ^ 64"
  shows "unregister_thread w =
     (Normal, w\<lparr>backend := backend_of (n - 1),
               trace := trace w @ [Dec_refcount] @ (if n = 1 then [Delete_backend] else [])\<rparr>)"
proof -
  from \<open>0 < n\<close> have pred: "(of_nat n :: 64 word) - 1 = of_nat (n - 1)"
    by (cases n) simp_all
  from \<open>n < 2 ^ 64\<close> have "n - 1 < 2 ^ 64" by simp
  then have zero: "((of_nat (n - 1) :: 64 word) = 0) = (n - 1 = 0)"
    by (rule of_nat_refcount_zero)
  have one: "(n - 1 = 0) = (n = 1)"
    using \<open>0 < n\<close> by auto
  have b: "backend w = Some \<lparr>refcount = of_nat n\<rparr>"
    using assms(1,2) by (simp add: backend_of_def)
  show ?thesis
    unfolding unregister_thread_Some [OF b] pred zero backend_of_def one ..
qed

lemma run_ops_spec:
  "nested n ops \<Longrightarrow> n + length ops < 2 ^ 64 \<Longrightarrow> backend w = backend_of n \<Longrightarrow>
   run_ops ops w =
     (Normal, w\<lparr>backend := backend_of (live n ops),
               trace := trace w @ spec_registry n ops\<rparr>)"
proof (induction n ops arbitrary: w rule: nested.induct)
  case (1 n)
  then show ?case by simp
next
  case (2 n ops)
  let ?w = "register_thread w"
  have step: "?w = w\<lparr>backend := backend_of (Suc n),
       trace := trace w @ (if n = 0 then [New_backend] else []) @ [Inc_refcount]\<rparr>"
    using "2.prems"(3) by (rule register_thread_step)
  have "run_ops ops ?w = (Normal, ?w\<lparr>backend := backend_of (live (Suc n) ops),
               trace := trace ?w @ spec_registry (Suc n) ops\<rparr>)"
  proof (rule "2.IH")
    show "nested (Suc n) ops" using "2.prems"(1) by simp
    show "Suc n + length ops < 2 ^ 64" using "2.prems"(2) by simp
    show "backend ?w = backend_of (Suc n)" by (simp add: step)
  qed
  then show ?case by (simp add: step)
next
  case (3 n ops)
  let ?w = "w\<lparr>backend := backend_of (n - 1),
               trace := trace w @ [Dec_refcount] @ (if n = 1 then [Delete_backend] else [])\<rparr>"
  have n: "0 < n" "nested (n - 1) ops" using "3.prems"(1) by simp_all
  have bound: "n < 2 ^ 64" using "3.prems"(2) by simp
  have step: "unregister_thread w = (Normal, ?w)"
    using "3.prems"(3) n(1) bound by (rule unregister_thread_step)
  have "run_ops ops ?w = (Normal, ?w\<lparr>backend := backend_of (live (n - 1) ops),
               trace := trace ?w @ spec_registry (n - 1) ops\<rparr>)"
  proof (rule "3.IH")
    show "nested (n - 1) ops" by (rule n(2))
    show "n - 1 + length ops < 2 ^ 64" using "3.prems"(2) by simp
    show "backend ?w = backend_of (n - 1)" by simp
  qed
  then show ?case by (simp add: step)
qed

lemma live_Reg: "live n (replicate k Reg @ ops) = live (n + k) ops"
  by (induction k arbitrary: n) simp_all

lemma live_Unreg: "live n (replicate k Unreg) = n - k"
  by (induction k arbitrary: n) simp_all

lemma nested_Reg: "nested n (replicate k Reg @ ops) = nested (n + k) ops"
  by (induction k arbitrary: n) simp_all

lemma nested_Unreg: "nested n (replicate k Unreg) = (k \<le> n)"
proof (induction k arbitrary: n)
  case 0
  show ?case by simp
next
  case (Suc k)
  have "nested n (replicate (Suc k) Unreg) = (0 < n \<and> k \<le> n - 1)"
    by (simp add: Suc.IH)
  also have "\<dots> = (Suc k \<le> n)" by arith
  finally show ?case .
qed

lemma spec_registry_Reg:
  "spec_registry n (replicate k Reg @ ops) =
     (if n = 0 \<and> 0 < k then [New_backend] else []) @ replicate k Inc_refcount
       @ spec_registry (n + k) ops"
proof (induction k arbitrary: n)
  case 0
  then show ?case by simp
next
  case (Suc k)
  then show ?case by (simp add: replicate_app_Cons_same)
qed

lemma spec_registry_Unreg:
  "k \<le> n \<Longrightarrow> spec_registry n (replicate k Unreg) =
     replicate k Dec_refcount @ (if n = k \<and> 0 < k then [Delete_backend] else [])"
proof (induction k arbitrary: n)
  case 0
  then show ?case by simp
next
  case (Suc k)
  then show ?case by (cases "k = 0") (auto simp: replicate_app_Cons_same)
qed

lemma nested_take: "nested n ops \<Longrightarrow> nested n (take k ops)"
proof (induction n ops arbitrary: k rule: nested.induct)
  case (1 n)
  then show ?case by simp
next
  case (2 n ops)
  then show ?case by (cases k) simp_all
next
  case (3 n ops)
  then show ?case by (cases k) simp_all
qed

text \<open>
  Calls that do not overlap. From a null backend, for every sequence of registrations and
  unregistrations made one after another in which no unregistration comes without a live
  registration (fewer than \<open>2^64\<close> calls, so that the 64-bit count does not wrap): every
  call returns, and the backend is constructed on the transition from 0 to 1 live
  registrations and torn down on the transition back to 0, as the contract says. At every
  point of the sequence the backend exists exactly when a registration is live. For \<open>N\<close>
  registrations followed by \<open>N\<close> unregistrations the backend is constructed once, before
  the first increment, and torn down once, after the last decrement.
\<close>

theorem registry_refcounting:
  fixes w :: "'a world"
  assumes "nested 0 ops" and "length ops < 2 ^ 64" and "backend w = None"
  shows "run_ops ops w =
           (Normal, w\<lparr>backend := backend_of (live 0 ops),
                     trace := trace w @ spec_registry 0 ops\<rparr>)
       \<and> (\<forall>k. (backend (snd (run_ops (take k ops) w)) = None) = (live 0 (take k ops) = 0))
       \<and> (\<forall>N. 0 < N \<longrightarrow> ops = replicate N Reg @ replicate N Unreg \<longrightarrow>
             run_ops ops w =
               (Normal, w\<lparr>backend := None,
                         trace := trace w @ [New_backend] @ replicate N Inc_refcount
                                    @ replicate N Dec_refcount @ [Delete_backend]\<rparr>))"
proof (intro conjI allI impI)
  have b: "backend w = backend_of 0"
    using assms(3) by (simp add: backend_of_def)
  show run: "run_ops ops w =
           (Normal, w\<lparr>backend := backend_of (live 0 ops),
                     trace := trace w @ spec_registry 0 ops\<rparr>)"
    using assms(1,2) b by (intro run_ops_spec) simp_all
  show "(backend (snd (run_ops (take k ops) w)) = None) = (live 0 (take k ops) = 0)" for k
  proof -
    have "nested 0 (take k ops)" using assms(1) by (rule nested_take)
    moreover have "0 + length (take k ops) < 2 ^ 64" using assms(2) by simp
    ultimately have "run_ops (take k ops) w =
           (Normal, w\<lparr>backend := backend_of (live 0 (take k ops)),
                     trace := trace w @ spec_registry 0 (take k ops)\<rparr>)"
      using b by (rule run_ops_spec)
    then show ?thesis by (simp add: backend_of_def)
  qed
  show "run_ops ops w =
               (Normal, w\<lparr>backend := None,
                         trace := trace w @ [New_backend] @ replicate N Inc_refcount
                                    @ replicate N Dec_refcount @ [Delete_backend]\<rparr>)"
    if "0 < N" and "ops = replicate N Reg @ replicate N Unreg" for N
  proof -
    have "live 0 ops = 0"
      unfolding that(2) live_Reg live_Unreg by simp
    moreover have "(spec_registry 0 ops :: 'a event list) =
        [New_backend] @ replicate N Inc_refcount @ replicate N Dec_refcount @ [Delete_backend]"
      unfolding that(2) spec_registry_Reg using that(1) by (simp add: spec_registry_Unreg)
    ultimately show ?thesis
      unfolding run by (simp add: backend_of_def)
  qed
qed

text \<open>Two registrations followed by two unregistrations.\<close>

theorem registry_refcounting_witness:
  "nested 0 [Reg, Reg, Unreg, Unreg] \<and> length [Reg, Reg, Unreg, Unreg] < 2 ^ 64
   \<and> backend \<lparr>backend = None, trace = ([] :: nat event list)\<rparr> = None
   \<and> run_ops [Reg, Reg, Unreg, Unreg] \<lparr>backend = None, trace = ([] :: nat event list)\<rparr> =
       (Normal, \<lparr>backend = None,
                 trace = [New_backend, Inc_refcount, Inc_refcount,
                          Dec_refcount, Dec_refcount, Delete_backend]\<rparr>)"
proof -
  have h1: "nested 0 [Reg, Reg, Unreg, Unreg]" by simp
  have h2: "length [Reg, Reg, Unreg, Unreg] < 2 ^ 64" by simp
  have h3: "backend \<lparr>backend = None, trace = ([] :: nat event list)\<rparr> = None" by simp
  have "run_ops [Reg, Reg, Unreg, Unreg] \<lparr>backend = None, trace = ([] :: nat event list)\<rparr> =
       (Normal, \<lparr>backend = None, trace = ([] :: nat event list)\<rparr>
          \<lparr>backend := backend_of (live 0 [Reg, Reg, Unreg, Unreg]),
            trace := trace \<lparr>backend = None, trace = ([] :: nat event list)\<rparr>
                       @ spec_registry 0 [Reg, Reg, Unreg, Unreg]\<rparr>)"
    using registry_refcounting [OF h1 h2 h3] by (rule conjunct1)
  then have "run_ops [Reg, Reg, Unreg, Unreg] \<lparr>backend = None, trace = ([] :: nat event list)\<rparr> =
       (Normal, \<lparr>backend = None,
                 trace = [New_backend, Inc_refcount, Inc_refcount,
                          Dec_refcount, Dec_refcount, Delete_backend]\<rparr>)"
    by (simp add: backend_of_def)
  with h1 h2 h3 show ?thesis by (intro conjI)
qed

subsection \<open>Traces and the single-thread handle\<close>

lemma started_append: "started (xs @ ys) = started xs @ started ys"
  by (induction xs rule: started.induct) simp_all

lemma joined_append: "joined (xs @ ys) = joined xs @ joined ys"
  by (induction xs rule: joined.induct) simp_all

lemma displayed_append: "displayed (xs @ ys) = displayed xs @ displayed ys"
  by (induction xs rule: displayed.induct) simp_all

lemma register_thread_eq:
  "register_thread w =
     \<lparr>backend = Some \<lparr>refcount = count w + 1\<rparr>,
      trace = trace w @ (if backend w = None then [New_backend] else []) @ [Inc_refcount]\<rparr>"
  by (cases "backend w")
     (simp_all add: register_thread_def emit_def Backend_ctor_def count_def)

lemma unregister_thread_eq:
  "backend w = Some \<lparr>refcount = c + 1\<rparr> \<Longrightarrow>
   unregister_thread w =
     (Normal, \<lparr>backend = (if c = 0 then None else Some \<lparr>refcount = c\<rparr>),
               trace = trace w @ Dec_refcount # (if c = 0 then [Delete_backend] else [])\<rparr>)"
  by (simp add: unregister_thread_def emit_def)

lemma single_thread_ctor_eq:
  "single_thread_ctor functor nm w =
     (\<lparr>name = nm, thread = Shared_state (Caller functor)\<rparr>,
      \<lparr>backend = Some \<lparr>refcount = count w + 1\<rparr>,
       trace = trace w @ (if backend w = None then [New_backend] else [])
                 @ [Inc_refcount, Debug (''launching thread '' @ quoted nm @ ''...''),
                    Async (Caller functor)]\<rparr>)"
  by (simp add: single_thread_ctor_def thread_base_ctor_def register_thread_eq DEBUG_def
      emit_def)

lemma single_thread_wait_eq:
  "thread h = Shared_state r \<Longrightarrow>
   single_thread_wait env h w =
     (case entry env r of Returned \<Rightarrow> Normal | Raised t \<Rightarrow> Throw t,
      h\<lparr>thread := No_state\<rparr>,
      w\<lparr>trace := trace w
           @ [Debug (''waiting for completion of thread '' @ quoted (name h) @ ''...''), Get r]
           @ (case entry env r of
                Returned \<Rightarrow> [Debug (''thread '' @ quoted (name h) @ '' completed OK'')]
              | Raised t \<Rightarrow> [])\<rparr>)"
  by (simp add: single_thread_wait_def DEBUG_def emit_def split: outcome.split)

lemma single_thread_dtor_consumed:
  "thread h = No_state \<Longrightarrow> single_thread_dtor env h w = unregister_thread w"
  by (simp add: single_thread_dtor_def thread_base_dtor_def)

lemma single_thread_dtor_eq:
  "thread h = Shared_state r \<Longrightarrow>
   single_thread_dtor env h w =
     (if foreign env r
      then (Terminate,
            w\<lparr>trace := trace w
              @ [Debug (''waiting for completion of thread '' @ quoted (name h) @ ''...''),
                 Get r]\<rparr>)
      else unregister_thread
             (w\<lparr>trace := trace w
                @ Debug (''waiting for completion of thread '' @ quoted (name h) @ ''...'')
                  # observed env r
                @ (if failed env r then []
                   else [Debug (''thread '' @ quoted (name h) @ '' completed OK'')])\<rparr>))"
  by (simp add: single_thread_dtor_def single_thread_wait_eq thread_base_dtor_def
      foreign_def failed_def observed_def display_def emit_def
      split: outcome.split thrown.split)

lemma unregister_thread_joined:
  "joined (trace (snd (unregister_thread w))) = joined (trace w)"
  by (simp add: unregister_thread_def emit_def joined_append Let_def split: option.split)

lemma unregister_thread_displayed:
  "displayed (trace (snd (unregister_thread w))) = displayed (trace w)"
  by (simp add: unregister_thread_def emit_def displayed_append Let_def split: option.split)

text \<open>
  Claim C4. \<^verbatim>\<open>wait()\<close> on a single-thread handle whose future refers to the unit of
  object \<open>r\<close> reads that future (the call lasts until the unit has terminated) and ends
  as the entry operation did: it returns when the operation returned, and it throws the
  very object the operation threw, whatever its type. It displays nothing. The failure is
  raised once: the future is left without shared state, and the destructor that follows
  only unregisters, reading no future and displaying nothing.
\<close>

theorem single_wait_reraises:
  assumes "thread h = Shared_state r"
  shows "(case single_thread_wait env h w of
            (c, h1, w1) \<Rightarrow>
              c = (case entry env r of Returned \<Rightarrow> Normal | Raised t \<Rightarrow> Throw t)
            \<and> joined (trace w1) = joined (trace w) @ [r]
            \<and> displayed (trace w1) = displayed (trace w)
            \<and> thread h1 = No_state
            \<and> fst (single_thread_dtor env h1 w1) = fst (unregister_thread w1)
            \<and> joined (trace (snd (single_thread_dtor env h1 w1))) = joined (trace w1)
            \<and> displayed (trace (snd (single_thread_dtor env h1 w1))) = displayed (trace w1))"
  by (simp add: single_thread_wait_eq [OF assms] single_thread_dtor_consumed
      joined_append displayed_append unregister_thread_joined unregister_thread_displayed
      split: outcome.split)

text \<open>
  A handle on a unit whose entry operation raises the exception \<open>boom\<close>.
\<close>

theorem single_wait_reraises_witness:
  "thread \<lparr>name = ''t'', thread = Shared_state (Element 0)\<rparr> = Shared_state (Element 0)
   \<and> fst (single_thread_wait env_fail \<lparr>name = ''t'', thread = Shared_state (Element 0)\<rparr> start)
       = Throw (MR (Exception ''boom''))
   \<and> thread (fst (snd (single_thread_wait env_fail
                          \<lparr>name = ''t'', thread = Shared_state (Element 0)\<rparr> start)))
       = No_state"
proof -
  have h: "thread \<lparr>name = ''t'', thread = Shared_state (Element (0::nat))\<rparr>
             = (Shared_state (Element 0) :: nat future)"
    by simp
  show ?thesis
    using single_wait_reraises [OF h, of env_fail start]
    by (simp add: env_fail_def split: prod.splits)
qed

text \<open>
  Claim C8, as amended. The constructor of a single-thread handle registers (it
  constructs the backend when there is none and increments the count) before it starts
  the unit, and it reads no future: the launch does not wait for the work. An explicit
  \<^verbatim>\<open>wait()\<close> leaves the registration as it is, however it ends. The registration ends
  in the destructor of the handle, after the unit has terminated and its future has been
  read: by an earlier \<^verbatim>\<open>wait()\<close>, or by the destructor itself, for which the statement
  is made when the entry operation did not throw an object of a type other than
  \<^verbatim>\<open>MR::Exception\<close>.
\<close>

theorem single_launch_registration:
  "(case single_thread_ctor a nm w of
      (h, w1) \<Rightarrow>
        thread h = Shared_state (Caller a)
      \<and> backend w1 = Some \<lparr>refcount = count w + 1\<rparr>
      \<and> trace w1 = trace w @ (if backend w = None then [New_backend] else [])
                      @ [Inc_refcount, Debug (''launching thread '' @ quoted nm @ ''...''),
                         Async (Caller a)]
      \<and> (case single_thread_wait env h w1 of
            (c, h2, w2) \<Rightarrow>
              backend w2 = backend w1
            \<and> trace w2 = trace w1
                 @ [Debug (''waiting for completion of thread '' @ quoted nm @ ''...''),
                    Get (Caller a)]
                 @ (if failed env (Caller a) then []
                    else [Debug (''thread '' @ quoted nm @ '' completed OK'')])
            \<and> single_thread_dtor env h2 w2 =
                (Normal,
                 \<lparr>backend = (if count w = 0 then None else Some \<lparr>refcount = count w\<rparr>),
                  trace = trace w2
                    @ Dec_refcount # (if count w = 0 then [Delete_backend] else [])\<rparr>))
      \<and> (\<not> foreign env (Caller a) \<longrightarrow>
           single_thread_dtor env h w1 =
             (Normal,
              \<lparr>backend = (if count w = 0 then None else Some \<lparr>refcount = count w\<rparr>),
               trace = trace w1
                 @ Debug (''waiting for completion of thread '' @ quoted nm @ ''...'')
                   # observed env (Caller a)
                 @ (if failed env (Caller a) then []
                    else [Debug (''thread '' @ quoted nm @ '' completed OK'')])
                 @ Dec_refcount # (if count w = 0 then [Delete_backend] else [])\<rparr>)))"
  by (simp add: single_thread_ctor_eq single_thread_wait_eq single_thread_dtor_consumed
      single_thread_dtor_eq unregister_thread_eq failed_def split: outcome.split)

text \<open>
  A handle on a functor whose entry operation returns, destroyed right after its launch.
\<close>

theorem single_launch_registration_witness:
  "\<not> foreign env_ok (Caller 0)
   \<and> single_thread_dtor env_ok (fst (single_thread_ctor 0 ''t'' start))
        (snd (single_thread_ctor 0 ''t'' start)) =
       (Normal,
        \<lparr>backend = None,
         trace = [New_backend, Inc_refcount,
                  Debug (''launching thread '' @ quoted ''t'' @ ''...''),
                  Async (Caller 0),
                  Debug (''waiting for completion of thread '' @ quoted ''t'' @ ''...''),
                  Get (Caller 0),
                  Debug (''thread '' @ quoted ''t'' @ '' completed OK''),
                  Dec_refcount, Delete_backend]\<rparr>)"
proof -
  have h: "\<not> foreign env_ok (Caller 0)"
    by (simp add: foreign_def env_ok_def)
  have c: "count start = 0" and b: "backend start = None" and t: "trace start = []"
    by (simp_all add: count_def start_def)
  have o: "observed env_ok (Caller 0) = [Get (Caller 0)]" and f: "\<not> failed env_ok (Caller 0)"
    by (simp_all add: observed_def failed_def env_ok_def)
  obtain h1 w1 where r: "single_thread_ctor 0 ''t'' start = (h1, w1)"
    by (cases "single_thread_ctor 0 ''t'' start")
  from single_launch_registration [where a = 0 and nm = "''t''" and w = start and env = env_ok] h
  have "trace w1 = trace start @ (if backend start = None then [New_backend] else [])
                      @ [Inc_refcount, Debug (''launching thread '' @ quoted ''t'' @ ''...''),
                         Async (Caller 0)]"
    and "single_thread_dtor env_ok h1 w1 =
             (Normal,
              \<lparr>backend = (if count start = 0 then None else Some \<lparr>refcount = count start\<rparr>),
               trace = trace w1
                 @ Debug (''waiting for completion of thread '' @ quoted ''t'' @ ''...'')
                   # observed env_ok (Caller 0)
                 @ (if failed env_ok (Caller 0) then []
                    else [Debug (''thread '' @ quoted ''t'' @ '' completed OK'')])
                 @ Dec_refcount # (if count start = 0 then [Delete_backend] else [])\<rparr>)"
    unfolding r prod.case by (simp_all split: prod.splits)
  with h show ?thesis
    by (simp add: r c b t o f)
qed

text \<open>
  Claim C8 as stated fails: after a launch and an explicit \<^verbatim>\<open>wait()\<close> that returned, the
  unit has terminated, yet the count is still 1 and the trace holds no decrement. The
  registration lasts until the handle is destroyed.
\<close>

theorem unregistration_not_at_termination:
  "snd (snd (single_thread_wait env_ok (fst (single_thread_ctor 0 ''t'' start))
                                        (snd (single_thread_ctor 0 ''t'' start)))) =
     \<lparr>backend = Some \<lparr>refcount = 1\<rparr>,
      trace = [New_backend, Inc_refcount,
               Debug (''launching thread '' @ quoted ''t'' @ ''...''),
               Async (Caller 0),
               Debug (''waiting for completion of thread '' @ quoted ''t'' @ ''...''),
               Get (Caller 0),
               Debug (''thread '' @ quoted ''t'' @ '' completed OK'')]\<rparr>"
  by (simp add: single_thread_ctor_eq single_thread_wait_eq env_ok_def start_def count_def)

subsection \<open>Launching a group\<close>

lemma pending_append: "pending (ts @ us) = pending ts @ pending us"
  by (induction ts rule: pending.induct) simp_all

lemma pending_Shared_state: "pending (map Shared_state rs) = rs"
  by (induction rs) simp_all

lemma pending_No_state: "pending (map (\<lambda>t. No_state) ts) = []"
  by (induction ts) simp_all

lemma started_Async: "started (map Async rs) = rs"
  by (induction rs) simp_all

lemma joined_Async: "joined (map Async rs) = []"
  by (induction rs) simp_all

lemma launch_copies_eq:
  "launch_copies i fs ts w =
     (ts @ map (\<lambda>k. Shared_state (Element k)) [i..<i + length fs],
      w\<lparr>trace := trace w @ map (\<lambda>k. Async (Element k)) [i..<i + length fs]\<rparr>)"
proof (induction fs arbitrary: i ts w)
  case Nil
  show ?case by simp
next
  case (Cons f fs)
  have "[i..<i + length (f # fs)] = i # [Suc i..<i + length (f # fs)]"
    by (rule upt_conv_Cons) simp
  moreover have "i + length (f # fs) = Suc i + length fs"
    by simp
  ultimately have upt: "[i..<i + length (f # fs)] = i # [Suc i..<Suc i + length fs]"
    by simp
  show ?case
    unfolding upt by (simp add: Cons.IH emit_def)
qed

lemma multi_thread_ctor_eq:
  assumes "nthreads \<noteq> 0"
    and "fits (functors_max_size env) (nthreads - 1)"
    and "fits (threads_max_size env) nthreads"
  shows "multi_thread_ctor env functor nthreads nm w =
     (Inr \<lparr>name = nm,
           threads = map Shared_state (map Element [0..<unat nthreads - 1] @ [Caller functor]),
           functors = replicate (unat nthreads - 1) (object env functor)\<rparr>,
      \<lparr>backend = Some \<lparr>refcount = count w + 1\<rparr>,
       trace = trace w @ (if backend w = None then [New_backend] else [])
                 @ [Inc_refcount,
                    Debug (''launching '' @ str env nthreads @ '' threads ''
                             @ quoted nm @ ''...'')]
                 @ map Async (map Element [0..<unat nthreads - 1] @ [Caller functor])\<rparr>)"
proof -
  have fill: "vector_fill (functors_max_size env) (nthreads - 1) (object env functor) =
      Inr (replicate (unat nthreads - 1) (object env functor))"
    using assms(1,2) by (simp add: vector_fill_def unat_minus_one)
  have reserve: "vector_reserve (threads_max_size env) nthreads = None"
    using assms(3) by (simp add: vector_reserve_def)
  show ?thesis
    by (simp add: multi_thread_ctor_def fill reserve thread_base_ctor_def register_thread_eq
        DEBUG_def emit_def launch_copies_eq)
qed

lemma no_room_for_SIZE_MAX: "\<not> fits limit (- 1)"
proof -
  have "unat (- 1 :: 64 word) = 2 ^ 64 - 1"
    by (simp add: unsigned_minus_1_eq_mask mask_eq_exp_minus_1)
  then show ?thesis
    by (simp add: fits_def PTRDIFF_MAX_def)
qed

lemma multi_thread_ctor_zero:
  "multi_thread_ctor env functor 0 nm w =
     (Inl Other,
      \<lparr>backend = (if count w = 0 then None else Some \<lparr>refcount = count w\<rparr>),
       trace = trace w @ (if backend w = None then [New_backend] else [])
                 @ Inc_refcount # Dec_refcount # (if count w = 0 then [Delete_backend] else [])\<rparr>)"
  by (simp add: multi_thread_ctor_def vector_fill_def no_room_for_SIZE_MAX thread_base_ctor_def
      thread_base_dtor_def register_thread_eq unregister_thread_eq)

lemma unregister_thread_started:
  "started (trace (snd (unregister_thread w))) = started (trace w)"
  by (simp add: unregister_thread_def emit_def started_append Let_def split: option.split)

lemma register_thread_started:
  "started (trace (register_thread w)) = started (trace w)"
  by (simp add: register_thread_eq started_append)

lemma multi_thread_ctor_fails:
  assumes "\<not> (fits (functors_max_size env) (nthreads - 1)
              \<and> fits (threads_max_size env) nthreads)"
  shows "fst (multi_thread_ctor env functor nthreads nm w) = Inl Other"
    and "started (trace (snd (multi_thread_ctor env functor nthreads nm w)))
           = started (trace w)"
  using assms
  by (auto simp: multi_thread_ctor_def vector_fill_def vector_reserve_def thread_base_ctor_def
      thread_base_dtor_def unregister_thread_started register_thread_started DEBUG_def
      emit_def started_append Let_def)

lemma launch_two:
  assumes "functors_max_size env = 1024" and "threads_max_size env = 1024"
  shows "multi_thread_ctor env a 2 nm w =
     (Inr \<lparr>name = nm,
           threads = [Shared_state (Element 0), Shared_state (Caller a)],
           functors = [object env a]\<rparr>,
      \<lparr>backend = Some \<lparr>refcount = count w + 1\<rparr>,
       trace = trace w @ (if backend w = None then [New_backend] else [])
                 @ [Inc_refcount,
                    Debug (''launching '' @ str env 2 @ '' threads '' @ quoted nm @ ''...''),
                    Async (Element 0), Async (Caller a)]\<rparr>)"
proof -
  have nz: "(2 :: 64 word) \<noteq> 0" by simp
  have f: "fits (functors_max_size env) (2 - 1)"
    by (simp add: assms fits_def PTRDIFF_MAX_def)
  have t: "fits (threads_max_size env) 2"
    by (simp add: assms fits_def PTRDIFF_MAX_def)
  have one: "unat (2 :: 64 word) - 1 = Suc 0" by simp
  show ?thesis
    unfolding multi_thread_ctor_eq [OF nz f t] one by simp
qed

subsection \<open>The loop of wait()\<close>

lemma observed_joined: "joined (observed env r) = [r]"
  by (simp add: observed_def split: outcome.split thrown.split)

lemma observed_displayed: "displayed (observed env r) = failure_of env r"
  by (simp add: observed_def failure_of_def split: outcome.split thrown.split)

lemma joined_observed_all: "joined (concat (map (observed env) rs)) = rs"
  by (induction rs) (simp_all add: joined_append observed_joined)

lemma displayed_observed_all: "displayed (concat (map (observed env) rs)) = failures env rs"
  by (induction rs) (simp_all add: displayed_append observed_displayed failures_def)

lemma wait_loop_clean:
  "list_all (\<lambda>r. \<not> foreign env r) (pending ts) \<Longrightarrow>
   wait_loop env ts b w =
     (None, map (\<lambda>t. No_state) ts, b \<or> list_ex (failed env) (pending ts),
      w\<lparr>trace := trace w @ concat (map (observed env) (pending ts))\<rparr>)"
proof (induction ts arbitrary: b w)
  case Nil
  show ?case by simp
next
  case (Cons t ts)
  show ?case
  proof (cases t)
    case No_state
    with Cons show ?thesis by simp
  next
    case (Shared_state r)
    with Cons.prems have rest: "list_all (\<lambda>r. \<not> foreign env r) (pending ts)"
      and r: "entry env r \<noteq> Raised Other"
      by (simp_all add: foreign_def)
    show ?thesis
    proof (cases "entry env r")
      case Returned
      then show ?thesis
        by (simp add: Shared_state Cons.IH [OF rest] observed_def failed_def emit_def)
    next
      case (Raised x)
      with r obtain E where E: "x = MR E" by (cases x) simp_all
      show ?thesis
        by (simp add: Shared_state Raised E Cons.IH [OF rest] observed_def failed_def
            emit_def display_def)
    qed
  qed
qed

lemma wait_loop_accounts:
  "wait_loop env ts b w = (x, ts1, b1, w1) \<Longrightarrow>
   joined (trace w1) @ pending ts1 = joined (trace w) @ pending ts"
proof (induction ts arbitrary: b w x ts1 b1 w1)
  case Nil
  then show ?case by simp
next
  case (Cons t ts)
  show ?case
  proof (cases t)
    case No_state
    with Cons.prems obtain ts2 where
      loop: "wait_loop env ts b w = (x, ts2, b1, w1)" and ts1: "ts1 = No_state # ts2"
      by (auto split: prod.splits)
    from Cons.IH [OF loop] show ?thesis by (simp add: No_state ts1)
  next
    case (Shared_state r)
    show ?thesis
    proof (cases "entry env r")
      case Returned
      with Cons.prems Shared_state obtain ts2 where
        loop: "wait_loop env ts b (emit (Get r) w) = (x, ts2, b1, w1)"
        and ts1: "ts1 = No_state # ts2"
        by (auto split: prod.splits)
      from Cons.IH [OF loop] show ?thesis
        by (simp add: Shared_state ts1 emit_def joined_append)
    next
      case (Raised y)
      show ?thesis
      proof (cases y)
        case (MR E)
        with Cons.prems Shared_state Raised obtain ts2 where
          loop: "wait_loop env ts True (display E (emit (Get r) w)) = (x, ts2, b1, w1)"
          and ts1: "ts1 = No_state # ts2"
          by (auto split: prod.splits)
        from Cons.IH [OF loop] show ?thesis
          by (simp add: Shared_state ts1 emit_def display_def joined_append)
      next
        case Other
        with Cons.prems Shared_state Raised show ?thesis
          by (auto simp: emit_def joined_append)
      qed
    qed
  qed
qed

lemma wait_loop_all_consumed:
  "wait_loop env ts b w = (None, ts1, b1, w1) \<Longrightarrow> pending ts1 = []"
proof (induction ts arbitrary: b w ts1 b1 w1)
  case Nil
  then show ?case by auto
next
  case (Cons t ts)
  show ?case
  proof (cases t)
    case No_state
    with Cons.prems obtain ts2 where
      loop: "wait_loop env ts b w = (None, ts2, b1, w1)" and ts1: "ts1 = No_state # ts2"
      by (auto split: prod.splits)
    from Cons.IH [OF loop] show ?thesis by (simp add: ts1)
  next
    case (Shared_state r)
    show ?thesis
    proof (cases "entry env r")
      case Returned
      with Cons.prems Shared_state obtain ts2 where
        loop: "wait_loop env ts b (emit (Get r) w) = (None, ts2, b1, w1)"
        and ts1: "ts1 = No_state # ts2"
        by (auto split: prod.splits)
      from Cons.IH [OF loop] show ?thesis by (simp add: ts1)
    next
      case (Raised y)
      show ?thesis
      proof (cases y)
        case (MR E)
        with Cons.prems Shared_state Raised obtain ts2 where
          loop: "wait_loop env ts True (display E (emit (Get r) w)) = (None, ts2, b1, w1)"
          and ts1: "ts1 = No_state # ts2"
          by (auto split: prod.splits)
        from Cons.IH [OF loop] show ?thesis by (simp add: ts1)
      next
        case Other
        with Cons.prems Shared_state Raised show ?thesis by auto
      qed
    qed
  qed
qed

lemma wait_loop_nothing_pending:
  "pending ts = [] \<Longrightarrow> wait_loop env ts b w = (None, ts, b, w)"
proof (induction ts)
  case Nil
  show ?case by simp
next
  case (Cons t ts)
  then show ?case by (cases t) simp_all
qed

subsection \<open>Waiting for a group\<close>

lemma multi_thread_wait_eq:
  assumes "list_all (\<lambda>r. \<not> foreign env r) (pending (threads h))"
  shows "multi_thread_wait env h w =
     (if list_ex (failed env) (pending (threads h))
      then Throw (MR (group_failure (name h))) else Normal,
      h\<lparr>threads := map (\<lambda>t. No_state) (threads h)\<rparr>,
      w\<lparr>trace := trace w
           @ Debug (''waiting for completion of threads '' @ quoted (name h) @ ''...'')
             # concat (map (observed env) (pending (threads h)))
           @ (if list_ex (failed env) (pending (threads h)) then []
              else [Debug (''threads '' @ quoted (name h) @ '' completed OK'')])\<rparr>)"
  by (simp add: multi_thread_wait_def DEBUG_def emit_def wait_loop_clean [OF assms]
      group_failure_def)

text \<open>
  When no pending worker of a group handle throws an object of a type other than
  \<^verbatim>\<open>MR::Exception\<close>, \<^verbatim>\<open>wait()\<close> reads the future of every pending worker, in order,
  and leaves none pending; it displays the failure of each failed worker right after
  reading its future; and only then it throws the one group failure if a worker failed,
  and returns if none did.
\<close>

theorem group_wait_aggregates:
  assumes "list_all (\<lambda>r. \<not> foreign env r) (pending (threads h))"
  shows "(case multi_thread_wait env h w of
            (c, h1, w1) \<Rightarrow>
              c = (if list_ex (failed env) (pending (threads h))
                   then Throw (MR (group_failure (name h))) else Normal)
            \<and> h1 = h\<lparr>threads := map (\<lambda>t. No_state) (threads h)\<rparr>
            \<and> pending (threads h1) = []
            \<and> trace w1 = trace w
                 @ Debug (''waiting for completion of threads '' @ quoted (name h) @ ''...'')
                   # concat (map (observed env) (pending (threads h)))
                 @ (if list_ex (failed env) (pending (threads h)) then []
                    else [Debug (''threads '' @ quoted (name h) @ '' completed OK'')])
            \<and> joined (trace w1) = joined (trace w) @ pending (threads h)
            \<and> displayed (trace w1) = displayed (trace w) @ failures env (pending (threads h)))"
  by (simp add: multi_thread_wait_eq [OF assms] pending_No_state joined_append
      displayed_append joined_observed_all displayed_observed_all)

text \<open>
  Two workers, the first of which raises the exception \<open>boom\<close>.
\<close>

theorem group_wait_aggregates_witness:
  "list_all (\<lambda>r. \<not> foreign env_fail r) (pending (threads two_workers))
   \<and> fst (multi_thread_wait env_fail two_workers start) = Throw (MR (group_failure ''g''))
   \<and> joined (trace (snd (snd (multi_thread_wait env_fail two_workers start))))
       = [Element 0, Caller 0]
   \<and> displayed (trace (snd (snd (multi_thread_wait env_fail two_workers start))))
       = [Exception ''boom'']"
proof -
  have h: "list_all (\<lambda>r. \<not> foreign env_fail r) (pending (threads two_workers))"
    by (simp add: two_workers_def foreign_def env_fail_def)
  show ?thesis
    using group_wait_aggregates [OF h, of start] h
    by (simp add: case_prod_beta two_workers_def failures_def failure_of_def failed_def
        env_fail_def start_def observed_def joined_append displayed_append)
qed

text \<open>
  Claim C1 fails on the code. The launch of two threads builds the handle of two workers.
  When the entry operation of the first throws an object that is not an
  \<^verbatim>\<open>MR::Exception\<close>, the handler in the loop of \<^verbatim>\<open>wait()\<close> does not match and the
  object leaves \<^verbatim>\<open>wait()\<close> at once: the second worker is still pending, nothing is
  displayed and no group failure is raised, although a worker failed.
\<close>

theorem group_wait_foreign_leaves_early:
  "fst (multi_thread_ctor env_foreign 0 2 ''g'' start) = Inr two_workers
   \<and> list_ex (failed env_foreign) (pending (threads two_workers))
   \<and> fst (multi_thread_wait env_foreign two_workers
            (snd (multi_thread_ctor env_foreign 0 2 ''g'' start))) = Throw Other
   \<and> pending (threads (fst (snd (multi_thread_wait env_foreign two_workers
            (snd (multi_thread_ctor env_foreign 0 2 ''g'' start)))))) = [Caller 0]
   \<and> joined (trace (snd (snd (multi_thread_wait env_foreign two_workers
            (snd (multi_thread_ctor env_foreign 0 2 ''g'' start)))))) = [Element 0]
   \<and> displayed (trace (snd (snd (multi_thread_wait env_foreign two_workers
            (snd (multi_thread_ctor env_foreign 0 2 ''g'' start)))))) = []"
proof -
  have ctor: "multi_thread_ctor env_foreign 0 2 ''g'' start =
      (Inr two_workers,
       \<lparr>backend = Some \<lparr>refcount = 1\<rparr>,
        trace = [New_backend, Inc_refcount,
                 Debug (''launching '' @ ''N'' @ '' threads '' @ quoted ''g'' @ ''...''),
                 Async (Element 0), Async (Caller 0)]\<rparr>)"
    by (simp add: launch_two two_workers_def start_def count_def env_foreign_def)
  show ?thesis
    unfolding ctor
    by (simp add: multi_thread_wait_def two_workers_def env_foreign_def DEBUG_def emit_def
        failed_def)
qed

subsection \<open>The workers of a group\<close>

lemma unat_threads:
  assumes "(n :: 64 word) \<noteq> 0"
  shows "Suc (unat n - 1) = unat n"
proof -
  have "unat n \<noteq> 0" using assms by (simp add: unat_eq_0)
  then show ?thesis by simp
qed

lemma pending_comp: "pending (map (Shared_state \<circ> f) xs) = map f xs"
  by (induction xs) simp_all

lemma started_comp: "started (map (Async \<circ> f) xs) = map f xs"
  by (induction xs) simp_all

lemma joined_comp: "joined (map (Async \<circ> f) xs) = []"
  by (induction xs) simp_all

lemma distinct_workers: "distinct (map Element [0..<k])"
  by (simp add: distinct_map inj_on_def)

text \<open>
  Claim C3. For a number of threads \<open>n \<ge> 1\<close> for which the two vectors can be built
  (\<open>n - 1\<close> functors and \<open>n\<close> futures fit), the constructor of a group handle succeeds.
  The handle owns \<open>n - 1\<close> copies of the caller's functor, and the constructor starts
  \<open>n\<close> units and waits for none: one on each copy and the last on the caller's functor
  itself, all on different objects.
\<close>

theorem group_launch_copies:
  assumes "nthreads \<noteq> 0"
    and "fits (functors_max_size env) (nthreads - 1)"
    and "fits (threads_max_size env) nthreads"
  shows "(case multi_thread_ctor env f nthreads nm w of
            (Inl t, w1) \<Rightarrow> False
          | (Inr h, w1) \<Rightarrow>
              name h = nm
            \<and> functors h = replicate (unat nthreads - 1) (object env f)
            \<and> length (functors h) = unat nthreads - 1
            \<and> threads h = map Shared_state (pending (threads h))
            \<and> pending (threads h) = map Element [0..<unat nthreads - 1] @ [Caller f]
            \<and> length (pending (threads h)) = unat nthreads
            \<and> distinct (pending (threads h))
            \<and> started (trace w1) = started (trace w) @ pending (threads h)
            \<and> joined (trace w1) = joined (trace w))"
proof -
  have len: "Suc (unat nthreads - 1) = unat nthreads"
    using assms(1) by (rule unat_threads)
  show ?thesis
    unfolding multi_thread_ctor_eq [OF assms]
    using len
    by (auto simp: pending_append pending_comp started_append started_comp joined_append
        joined_comp distinct_workers)
qed

text \<open>
  A launch of three threads on the caller's functor 7.
\<close>

theorem group_launch_copies_witness:
  "(3 :: 64 word) \<noteq> 0
   \<and> fits (functors_max_size env_ok) (3 - 1)
   \<and> fits (threads_max_size env_ok) 3
   \<and> \<not> isl (fst (multi_thread_ctor env_ok 7 3 ''g'' start))
   \<and> functors (projr (fst (multi_thread_ctor env_ok 7 3 ''g'' start))) = [(), ()]
   \<and> pending (threads (projr (fst (multi_thread_ctor env_ok 7 3 ''g'' start)))) =
       [Element 0, Element 1, Caller 7]
   \<and> started (trace (snd (multi_thread_ctor env_ok 7 3 ''g'' start))) =
       [Element 0, Element 1, Caller 7]"
proof -
  have h: "(3 :: 64 word) \<noteq> 0" by simp
  have f: "fits (functors_max_size env_ok) (3 - 1)"
    by (simp add: env_ok_def fits_def PTRDIFF_MAX_def)
  have r3: "fits (threads_max_size env_ok) 3"
    by (simp add: env_ok_def fits_def PTRDIFF_MAX_def)
  have three: "unat (3 :: 64 word) - 1 = 2" by simp
  have upt: "[0..<2] = [0, 1 :: nat]" by code_simp
  have rep: "replicate 2 () = [(), ()]" by code_simp
  have st: "started (trace start) = []" by (simp add: start_def)
  note t = group_launch_copies [where ?env = env_ok and ?f = 7 and ?nm = "''g''" and ?w = start,
      OF h f r3]
  obtain x w1 where r: "multi_thread_ctor env_ok 7 3 ''g'' start = (x, w1)"
    by (cases "multi_thread_ctor env_ok 7 3 ''g'' start")
  from t r obtain h1 where x: "x = Inr h1"
    by (cases x) simp_all
  from t r x have facts:
    "functors h1 = replicate (unat (3 :: 64 word) - 1) (object env_ok 7)"
    "pending (threads h1) = map Element [0..<unat (3 :: 64 word) - 1] @ [Caller 7]"
    "started (trace w1) = started (trace start) @ pending (threads h1)"
    by simp_all
  show ?thesis
    using h f r3 facts by (simp add: r x st upt rep)
qed

subsection \<open>Teardown\<close>

lemma unregister_thread_returns:
  "backend w \<noteq> None \<Longrightarrow> fst (unregister_thread w) = Normal"
  by (auto simp: unregister_thread_def Let_def)

lemma multi_thread_dtor_eq:
  assumes "list_all (\<lambda>r. \<not> foreign env r) (pending (threads h))"
  shows "multi_thread_dtor env h w =
     unregister_thread
       (w\<lparr>trace := trace w
           @ Debug (''waiting for completion of threads '' @ quoted (name h) @ ''...'')
             # concat (map (observed env) (pending (threads h)))
           @ (if list_ex (failed env) (pending (threads h))
              then [Display (group_failure (name h))]
              else [Debug (''threads '' @ quoted (name h) @ '' completed OK'')])\<rparr>)"
  by (simp add: multi_thread_dtor_def multi_thread_wait_eq [OF assms] thread_base_dtor_def
      display_def emit_def)

text \<open>
  A handle destroyed while its registration is live, without an explicit \<^verbatim>\<open>wait()\<close>,
  and whose workers throw nothing but \<^verbatim>\<open>MR::Exception\<close>: the destructor returns
  normally. It has read the future of every pending worker and displayed every failure;
  the destructor of a group also displays the group failure that its own \<^verbatim>\<open>wait()\<close>
  raised. The first part is the single-thread handle, the second the group handle.
\<close>

theorem teardown_swallows:
  assumes "backend w \<noteq> None"
  shows "(thread s = Shared_state r \<and> \<not> foreign env r \<longrightarrow>
            fst (single_thread_dtor env s w) = Normal
          \<and> joined (trace (snd (single_thread_dtor env s w))) = joined (trace w) @ [r]
          \<and> displayed (trace (snd (single_thread_dtor env s w)))
              = displayed (trace w) @ failure_of env r)
       \<and> (list_all (\<lambda>r. \<not> foreign env r) (pending (threads h)) \<longrightarrow>
            fst (multi_thread_dtor env h w) = Normal
          \<and> joined (trace (snd (multi_thread_dtor env h w)))
              = joined (trace w) @ pending (threads h)
          \<and> displayed (trace (snd (multi_thread_dtor env h w)))
              = displayed (trace w) @ failures env (pending (threads h))
                  @ (if list_ex (failed env) (pending (threads h))
                     then [group_failure (name h)] else []))"
proof (intro conjI impI)
  assume s: "thread s = Shared_state r \<and> \<not> foreign env r"
  let ?w = "w\<lparr>trace := trace w
                @ Debug (''waiting for completion of thread '' @ quoted (name s) @ ''...'')
                  # observed env r
                @ (if failed env r then []
                   else [Debug (''thread '' @ quoted (name s) @ '' completed OK'')])\<rparr>"
  have dtor: "single_thread_dtor env s w = unregister_thread ?w"
    using s by (simp add: single_thread_dtor_eq)
  have live: "backend ?w \<noteq> None"
    using assms by simp
  show "fst (single_thread_dtor env s w) = Normal"
    unfolding dtor using live by (rule unregister_thread_returns)
  show "joined (trace (snd (single_thread_dtor env s w))) = joined (trace w) @ [r]"
    unfolding dtor unregister_thread_joined
    by (simp add: joined_append observed_joined)
  show "displayed (trace (snd (single_thread_dtor env s w)))
          = displayed (trace w) @ failure_of env r"
    unfolding dtor unregister_thread_displayed
    by (simp add: displayed_append observed_displayed)
next
  assume h: "list_all (\<lambda>r. \<not> foreign env r) (pending (threads h))"
  let ?w = "w\<lparr>trace := trace w
           @ Debug (''waiting for completion of threads '' @ quoted (name h) @ ''...'')
             # concat (map (observed env) (pending (threads h)))
           @ (if list_ex (failed env) (pending (threads h))
              then [Display (group_failure (name h))]
              else [Debug (''threads '' @ quoted (name h) @ '' completed OK'')])\<rparr>"
  have dtor: "multi_thread_dtor env h w = unregister_thread ?w"
    using h by (rule multi_thread_dtor_eq)
  have live: "backend ?w \<noteq> None"
    using assms by simp
  show "fst (multi_thread_dtor env h w) = Normal"
    unfolding dtor using live by (rule unregister_thread_returns)
  show "joined (trace (snd (multi_thread_dtor env h w)))
          = joined (trace w) @ pending (threads h)"
    unfolding dtor unregister_thread_joined
    by (simp add: joined_append joined_observed_all)
  show "displayed (trace (snd (multi_thread_dtor env h w)))
          = displayed (trace w) @ failures env (pending (threads h))
              @ (if list_ex (failed env) (pending (threads h))
                 then [group_failure (name h)] else [])"
    unfolding dtor unregister_thread_displayed
    by (simp add: displayed_append displayed_observed_all)
qed

text \<open>
  A group of two workers, the first of which raises \<open>boom\<close>, destroyed right after its
  launch.
\<close>

theorem teardown_swallows_witness:
  "backend (snd (multi_thread_ctor env_fail 0 2 ''g'' start)) \<noteq> None
   \<and> list_all (\<lambda>r. \<not> foreign env_fail r) (pending (threads two_workers))
   \<and> fst (multi_thread_dtor env_fail two_workers
             (snd (multi_thread_ctor env_fail 0 2 ''g'' start))) = Normal
   \<and> displayed (trace (snd (multi_thread_dtor env_fail two_workers
             (snd (multi_thread_ctor env_fail 0 2 ''g'' start)))))
       = [Exception ''boom'', group_failure ''g'']"
proof -
  have ctor: "backend (snd (multi_thread_ctor env_fail 0 2 ''g'' start)) \<noteq> None"
    and d: "displayed (trace (snd (multi_thread_ctor env_fail 0 2 ''g'' start))) = []"
    by (simp_all add: launch_two env_fail_def start_def displayed_append)
  have h: "list_all (\<lambda>r. \<not> foreign env_fail r) (pending (threads two_workers))"
    by (simp add: two_workers_def foreign_def env_fail_def)
  have f: "failures env_fail (pending (threads two_workers)) = [Exception ''boom'']"
    by (simp add: two_workers_def failures_def failure_of_def env_fail_def)
  have e: "list_ex (failed env_fail) (pending (threads two_workers))"
    by (simp add: two_workers_def failed_def env_fail_def)
  have n: "name two_workers = ''g''"
    by (simp add: two_workers_def)
  from teardown_swallows [OF ctor, of _ _ env_fail two_workers] h
  have "fst (multi_thread_dtor env_fail two_workers
               (snd (multi_thread_ctor env_fail 0 2 ''g'' start))) = Normal"
    and "displayed (trace (snd (multi_thread_dtor env_fail two_workers
               (snd (multi_thread_ctor env_fail 0 2 ''g'' start)))))
         = displayed (trace (snd (multi_thread_ctor env_fail 0 2 ''g'' start)))
             @ failures env_fail (pending (threads two_workers))
             @ (if list_ex (failed env_fail) (pending (threads two_workers))
                then [group_failure (name two_workers)] else [])"
    by blast+
  with ctor h show ?thesis
    by (simp add: d f e n)
qed

text \<open>
  Claim C5 fails on the code. When the entry operation throws an object that is not an
  \<^verbatim>\<open>MR::Exception\<close>, the handler of the destructor does not match it. The exception
  leaves a \<^verbatim>\<open>noexcept\<close> destructor, which ends the process, and nothing is displayed.
  This holds for the single-thread handle and for the group handle.
\<close>

theorem teardown_foreign_terminates:
  "fst (single_thread_dtor env_all_foreign (fst (single_thread_ctor 0 ''t'' start))
          (snd (single_thread_ctor 0 ''t'' start))) = Terminate
   \<and> displayed (trace (snd (single_thread_dtor env_all_foreign
          (fst (single_thread_ctor 0 ''t'' start))
          (snd (single_thread_ctor 0 ''t'' start))))) = []
   \<and> fst (multi_thread_ctor env_foreign 0 2 ''g'' start) = Inr two_workers
   \<and> fst (multi_thread_dtor env_foreign two_workers
          (snd (multi_thread_ctor env_foreign 0 2 ''g'' start))) = Terminate
   \<and> displayed (trace (snd (multi_thread_dtor env_foreign two_workers
          (snd (multi_thread_ctor env_foreign 0 2 ''g'' start))))) = []"
proof -
  have single: "single_thread_dtor env_all_foreign (fst (single_thread_ctor 0 ''t'' start))
          (snd (single_thread_ctor 0 ''t'' start)) =
      (Terminate,
       \<lparr>backend = Some \<lparr>refcount = 1\<rparr>,
        trace = [New_backend, Inc_refcount,
                 Debug (''launching thread '' @ quoted ''t'' @ ''...''),
                 Async (Caller 0),
                 Debug (''waiting for completion of thread '' @ quoted ''t'' @ ''...''),
                 Get (Caller 0)]\<rparr>)"
    by (simp add: single_thread_ctor_eq single_thread_dtor_eq foreign_def env_all_foreign_def
        start_def count_def)
  have ctor: "multi_thread_ctor env_foreign 0 2 ''g'' start =
      (Inr two_workers,
       \<lparr>backend = Some \<lparr>refcount = 1\<rparr>,
        trace = [New_backend, Inc_refcount,
                 Debug (''launching '' @ ''N'' @ '' threads '' @ quoted ''g'' @ ''...''),
                 Async (Element 0), Async (Caller 0)]\<rparr>)"
    by (simp add: launch_two two_workers_def start_def count_def env_foreign_def)
  show ?thesis
    unfolding ctor single
    by (simp add: multi_thread_dtor_def multi_thread_wait_def two_workers_def env_foreign_def
        DEBUG_def emit_def)
qed

subsection \<open>Handles that have been waited for\<close>

lemma wait_loop_escape:
  "wait_loop env ts b w = (Some t, ts1, b1, w1) \<Longrightarrow> t = Other"
proof (induction ts arbitrary: b w ts1 b1 w1)
  case Nil
  then show ?case by simp
next
  case (Cons u ts)
  show ?case
  proof (cases u)
    case No_state
    with Cons.prems obtain ts2 where "wait_loop env ts b w = (Some t, ts2, b1, w1)"
      by (auto split: prod.splits)
    then show ?thesis by (rule Cons.IH)
  next
    case (Shared_state r)
    show ?thesis
    proof (cases "entry env r")
      case Returned
      with Cons.prems Shared_state obtain ts2 where
        "wait_loop env ts b (emit (Get r) w) = (Some t, ts2, b1, w1)"
        by (auto split: prod.splits)
      then show ?thesis by (rule Cons.IH)
    next
      case (Raised y)
      show ?thesis
      proof (cases y)
        case (MR E)
        with Cons.prems Shared_state Raised obtain ts2 where
          "wait_loop env ts True (display E (emit (Get r) w)) = (Some t, ts2, b1, w1)"
          by (auto split: prod.splits)
        then show ?thesis by (rule Cons.IH)
      next
        case Other
        with Cons.prems Shared_state Raised show ?thesis by auto
      qed
    qed
  qed
qed

lemma multi_thread_wait_consumed:
  "pending (threads h) = [] \<Longrightarrow>
   multi_thread_wait env h w =
     (Normal, h,
      w\<lparr>trace := trace w
           @ [Debug (''waiting for completion of threads '' @ quoted (name h) @ ''...''),
              Debug (''threads '' @ quoted (name h) @ '' completed OK'')]\<rparr>)"
  by (simp add: multi_thread_wait_def DEBUG_def emit_def wait_loop_nothing_pending)

lemma multi_thread_wait_accounts:
  assumes "multi_thread_wait env h w = (c, h1, w1)"
  shows "joined (trace w1) @ pending (threads h1) = joined (trace w) @ pending (threads h)"
    and "c \<noteq> Throw Other \<Longrightarrow> pending (threads h1) = []"
    and "name h1 = name h"
proof -
  let ?w = "DEBUG (''waiting for completion of threads '' @ quoted (name h) @ ''...'') w"
  obtain x ts b w2 where loop: "wait_loop env (threads h) False ?w = (x, ts, b, w2)"
    by (cases "wait_loop env (threads h) False ?w")
  have h1: "h1 = h\<lparr>threads := ts\<rparr>"
    using assms loop
    by (cases x) (auto simp: multi_thread_wait_def Let_def split: if_splits)
  have j: "joined (trace w1) = joined (trace w2)"
    using assms loop
    by (cases x)
       (auto simp: multi_thread_wait_def Let_def DEBUG_def emit_def joined_append
          split: if_splits)
  have "joined (trace w2) @ pending ts = joined (trace ?w) @ pending (threads h)"
    using loop by (rule wait_loop_accounts)
  then show "joined (trace w1) @ pending (threads h1) = joined (trace w) @ pending (threads h)"
    by (simp add: h1 j DEBUG_def emit_def joined_append)
  show "name h1 = name h" by (simp add: h1)
  show "pending (threads h1) = []" if "c \<noteq> Throw Other"
  proof (cases x)
    case None
    with loop have "pending ts = []" by (simp add: wait_loop_all_consumed)
    then show ?thesis by (simp add: h1)
  next
    case (Some t)
    have "t = Other"
      using loop Some by (simp add: wait_loop_escape)
    with that assms loop Some show ?thesis
      by (simp add: multi_thread_wait_def Let_def)
  qed
qed

text \<open>
  After \<^verbatim>\<open>wait()\<close> on a single-thread handle, however it ended, the future has no
  shared state and the destructor only unregisters: it reads no future and displays
  nothing. After \<^verbatim>\<open>wait()\<close> on a group handle that returned or raised the group
  failure, no worker is pending. Whenever no worker is pending, a second \<^verbatim>\<open>wait()\<close>
  skips every future, returns normally and adds only its two debug messages to the trace,
  and so does the \<^verbatim>\<open>wait()\<close> inside the destructor. Whatever the first \<^verbatim>\<open>wait()\<close>
  did, two calls in a row read the future of each worker at most once: the workers read
  and the workers still pending make up the workers read and pending before.
\<close>

theorem consumed_outcome_not_revisited:
  "(thread s = Shared_state r \<longrightarrow>
      (case single_thread_wait env s w of
         (c, s1, w1) \<Rightarrow>
           thread s1 = No_state
         \<and> single_thread_dtor env s1 w1 = unregister_thread w1
         \<and> joined (trace (snd (single_thread_dtor env s1 w1))) = joined (trace w1)
         \<and> displayed (trace (snd (single_thread_dtor env s1 w1))) = displayed (trace w1)))
   \<and> (case multi_thread_wait env h w of
         (c, h1, w1) \<Rightarrow>
           (c \<noteq> Throw Other \<longrightarrow> pending (threads h1) = [])
         \<and> (pending (threads h1) = [] \<longrightarrow>
              multi_thread_wait env h1 w1 =
                (Normal, h1,
                 w1\<lparr>trace := trace w1
                   @ [Debug (''waiting for completion of threads '' @ quoted (name h) @ ''...''),
                      Debug (''threads '' @ quoted (name h) @ '' completed OK'')]\<rparr>)
            \<and> multi_thread_dtor env h1 w1 =
                unregister_thread
                  (w1\<lparr>trace := trace w1
                     @ [Debug (''waiting for completion of threads '' @ quoted (name h) @ ''...''),
                        Debug (''threads '' @ quoted (name h) @ '' completed OK'')]\<rparr>))
         \<and> (case multi_thread_wait env h1 w1 of
               (c2, h2, w2) \<Rightarrow>
                 joined (trace w2) @ pending (threads h2) = joined (trace w) @ pending (threads h)
               \<and> (distinct (joined (trace w) @ pending (threads h)) \<longrightarrow>
                    distinct (joined (trace w2)))))"
proof (intro conjI impI)
  assume "thread s = Shared_state r"
  then show "case single_thread_wait env s w of
         (c, s1, w1) \<Rightarrow>
           thread s1 = No_state
         \<and> single_thread_dtor env s1 w1 = unregister_thread w1
         \<and> joined (trace (snd (single_thread_dtor env s1 w1))) = joined (trace w1)
         \<and> displayed (trace (snd (single_thread_dtor env s1 w1))) = displayed (trace w1)"
    by (simp add: single_thread_wait_eq single_thread_dtor_consumed unregister_thread_joined
        unregister_thread_displayed)
next
  obtain c h1 w1 where first: "multi_thread_wait env h w = (c, h1, w1)"
    by (cases "multi_thread_wait env h w")
  obtain c2 h2 w2 where second: "multi_thread_wait env h1 w1 = (c2, h2, w2)"
    by (cases "multi_thread_wait env h1 w1")
  note a1 = multi_thread_wait_accounts [OF first]
  note a2 = multi_thread_wait_accounts [OF second]
  have again: "multi_thread_wait env h1 w1 =
                (Normal, h1,
                 w1\<lparr>trace := trace w1
                   @ [Debug (''waiting for completion of threads '' @ quoted (name h) @ ''...''),
                      Debug (''threads '' @ quoted (name h) @ '' completed OK'')]\<rparr>)"
    if "pending (threads h1) = []"
    using multi_thread_wait_consumed [OF that, of env w1] by (simp add: a1(3))
  have dtor: "multi_thread_dtor env h1 w1 =
                unregister_thread
                  (w1\<lparr>trace := trace w1
                     @ [Debug (''waiting for completion of threads '' @ quoted (name h) @ ''...''),
                        Debug (''threads '' @ quoted (name h) @ '' completed OK'')]\<rparr>)"
    if "pending (threads h1) = []"
    by (simp add: multi_thread_dtor_def again [OF that] thread_base_dtor_def)
  have acc: "joined (trace w2) @ pending (threads h2) = joined (trace w) @ pending (threads h)"
    using a1(1) a2(1) by simp
  have dist: "distinct (joined (trace w2))"
    if "distinct (joined (trace w) @ pending (threads h))"
  proof -
    from that acc have "distinct (joined (trace w2) @ pending (threads h2))" by simp
    then show ?thesis by simp
  qed
  show "case multi_thread_wait env h w of
         (c, h1, w1) \<Rightarrow>
           (c \<noteq> Throw Other \<longrightarrow> pending (threads h1) = [])
         \<and> (pending (threads h1) = [] \<longrightarrow>
              multi_thread_wait env h1 w1 =
                (Normal, h1,
                 w1\<lparr>trace := trace w1
                   @ [Debug (''waiting for completion of threads '' @ quoted (name h) @ ''...''),
                      Debug (''threads '' @ quoted (name h) @ '' completed OK'')]\<rparr>)
            \<and> multi_thread_dtor env h1 w1 =
                unregister_thread
                  (w1\<lparr>trace := trace w1
                     @ [Debug (''waiting for completion of threads '' @ quoted (name h) @ ''...''),
                        Debug (''threads '' @ quoted (name h) @ '' completed OK'')]\<rparr>))
         \<and> (case multi_thread_wait env h1 w1 of
               (c2, h2, w2) \<Rightarrow>
                 joined (trace w2) @ pending (threads h2) = joined (trace w) @ pending (threads h)
               \<and> (distinct (joined (trace w) @ pending (threads h)) \<longrightarrow>
                    distinct (joined (trace w2))))"
    unfolding first second prod.case
    using a1(2) again [unfolded second] dtor acc dist by blast
qed

text \<open>
  Two workers, the first of which raises \<open>boom\<close>: the first \<^verbatim>\<open>wait()\<close> raises the group
  failure, the second returns and displays nothing more.
\<close>

theorem consumed_outcome_not_revisited_witness:
  "fst (multi_thread_wait env_fail two_workers start) \<noteq> Throw Other
   \<and> pending (threads (fst (snd (multi_thread_wait env_fail two_workers start)))) = []
   \<and> distinct (joined (trace start) @ pending (threads two_workers))
   \<and> fst (multi_thread_wait env_fail
            (fst (snd (multi_thread_wait env_fail two_workers start)))
            (snd (snd (multi_thread_wait env_fail two_workers start)))) = Normal
   \<and> displayed (trace (snd (snd (multi_thread_wait env_fail
            (fst (snd (multi_thread_wait env_fail two_workers start)))
            (snd (snd (multi_thread_wait env_fail two_workers start)))))))
       = displayed (trace (snd (snd (multi_thread_wait env_fail two_workers start))))
   \<and> joined (trace (snd (snd (multi_thread_wait env_fail
            (fst (snd (multi_thread_wait env_fail two_workers start)))
            (snd (snd (multi_thread_wait env_fail two_workers start)))))))
       = [Element 0, Caller 0]"
proof -
  have clean: "list_all (\<lambda>r. \<not> foreign env_fail r) (pending (threads two_workers))"
    by (simp add: two_workers_def foreign_def env_fail_def)
  obtain c h1 w1 where first: "multi_thread_wait env_fail two_workers start = (c, h1, w1)"
    by (cases "multi_thread_wait env_fail two_workers start")
  have c: "c \<noteq> Throw Other"
    using first by (auto simp: multi_thread_wait_eq [OF clean] split: if_splits)
  have d: "distinct (joined (trace start) @ pending (threads two_workers))"
    by (simp add: start_def two_workers_def)
  have j: "joined (trace start) @ pending (threads two_workers) = [Element 0, Caller 0]"
    by (simp add: start_def two_workers_def)
  from consumed_outcome_not_revisited [where env = env_fail and h = two_workers and w = start]
  have group: "(c \<noteq> Throw Other \<longrightarrow> pending (threads h1) = [])
         \<and> (pending (threads h1) = [] \<longrightarrow>
              multi_thread_wait env_fail h1 w1 =
                (Normal, h1,
                 w1\<lparr>trace := trace w1
                   @ [Debug (''waiting for completion of threads ''
                               @ quoted (name two_workers) @ ''...''),
                      Debug (''threads '' @ quoted (name two_workers) @ '' completed OK'')]\<rparr>))
         \<and> (case multi_thread_wait env_fail h1 w1 of
               (c2, h2, w2) \<Rightarrow>
                 joined (trace w2) @ pending (threads h2)
                   = joined (trace start) @ pending (threads two_workers))"
    unfolding first prod.case by (auto split: prod.splits)
  with c have p: "pending (threads h1) = []"
    by simp
  with group have again: "multi_thread_wait env_fail h1 w1 =
                (Normal, h1,
                 w1\<lparr>trace := trace w1
                   @ [Debug (''waiting for completion of threads ''
                               @ quoted (name two_workers) @ ''...''),
                      Debug (''threads '' @ quoted (name two_workers) @ '' completed OK'')]\<rparr>)"
    by simp
  from group have "joined (trace (snd (snd (multi_thread_wait env_fail h1 w1))))
      @ pending (threads (fst (snd (multi_thread_wait env_fail h1 w1))))
      = [Element 0, Caller 0]"
    by (simp add: j case_prod_beta)
  then have jj: "joined (trace (snd (snd (multi_thread_wait env_fail h1 w1))))
      = [Element 0, Caller 0]"
    by (simp add: again p)
  show ?thesis
    unfolding first using c d jj p by (simp add: again displayed_append)
qed

text \<open>
  Claim C9 fails on the code. Two workers: the entry operation of the first throws an
  object that is not an \<^verbatim>\<open>MR::Exception\<close>, the one of the second raises \<open>boom\<close>. The
  first \<^verbatim>\<open>wait()\<close> raises the foreign object and leaves the second worker pending. The
  second \<^verbatim>\<open>wait()\<close> is then no no-op: it reads the future of the second worker,
  displays its failure and raises the group failure.
\<close>

theorem second_wait_after_foreign:
  "multi_thread_ctor env_foreign_then_fail 0 2 ''g'' start =
      (Inr two_workers,
       \<lparr>backend = Some \<lparr>refcount = 1\<rparr>,
        trace = [New_backend, Inc_refcount,
                 Debug (''launching '' @ ''N'' @ '' threads '' @ quoted ''g'' @ ''...''),
                 Async (Element 0), Async (Caller 0)]\<rparr>)
   \<and> multi_thread_wait env_foreign_then_fail two_workers
       \<lparr>backend = Some \<lparr>refcount = 1\<rparr>,
        trace = [New_backend, Inc_refcount,
                 Debug (''launching '' @ ''N'' @ '' threads '' @ quoted ''g'' @ ''...''),
                 Async (Element 0), Async (Caller 0)]\<rparr> =
      (Throw Other,
       \<lparr>name = ''g'', threads = [No_state, Shared_state (Caller 0)], functors = [()]\<rparr>,
       \<lparr>backend = Some \<lparr>refcount = 1\<rparr>,
        trace = [New_backend, Inc_refcount,
                 Debug (''launching '' @ ''N'' @ '' threads '' @ quoted ''g'' @ ''...''),
                 Async (Element 0), Async (Caller 0),
                 Debug (''waiting for completion of threads '' @ quoted ''g'' @ ''...''),
                 Get (Element 0)]\<rparr>)
   \<and> multi_thread_wait env_foreign_then_fail
       \<lparr>name = ''g'', threads = [No_state, Shared_state (Caller 0)], functors = [()]\<rparr>
       \<lparr>backend = Some \<lparr>refcount = 1\<rparr>,
        trace = [New_backend, Inc_refcount,
                 Debug (''launching '' @ ''N'' @ '' threads '' @ quoted ''g'' @ ''...''),
                 Async (Element 0), Async (Caller 0),
                 Debug (''waiting for completion of threads '' @ quoted ''g'' @ ''...''),
                 Get (Element 0)]\<rparr> =
      (Throw (MR (group_failure ''g'')),
       \<lparr>name = ''g'', threads = [No_state, No_state], functors = [()]\<rparr>,
       \<lparr>backend = Some \<lparr>refcount = 1\<rparr>,
        trace = [New_backend, Inc_refcount,
                 Debug (''launching '' @ ''N'' @ '' threads '' @ quoted ''g'' @ ''...''),
                 Async (Element 0), Async (Caller 0),
                 Debug (''waiting for completion of threads '' @ quoted ''g'' @ ''...''),
                 Get (Element 0),
                 Debug (''waiting for completion of threads '' @ quoted ''g'' @ ''...''),
                 Get (Caller 0), Display (Exception ''boom'')]\<rparr>)"
  by (simp add: launch_two multi_thread_wait_def two_workers_def start_def count_def
      env_foreign_then_fail_def DEBUG_def emit_def display_def group_failure_def)

subsection \<open>The launcher\<close>

text \<open>
  Claim C7. \<^verbatim>\<open>run\<close> on a functor builds a single-thread handle on the caller's functor
  and starts one unit. \<^verbatim>\<open>multi (functor, n)\<close> records the reference to the functor and
  the number \<open>n\<close>. \<^verbatim>\<open>run\<close> on that request builds the group handle of the referenced
  functor and of \<open>num\<close>, which for \<open>n \<ge> 1\<close>, when the vectors of the handle can be
  built, has \<open>n\<close> threads, the last on the caller's functor. That the choice is made at
  compile time shows in the model as two functions of different types, one for each kind
  of argument.
\<close>

theorem run_dispatch:
  "run a nm w = single_thread_ctor a nm w
   \<and> thread (fst (run a nm w)) = Shared_state (Caller a)
   \<and> started (trace (snd (run a nm w))) = started (trace w) @ [Caller a]
   \<and> functor_ref (multi a n) = a
   \<and> num (multi a n) = n
   \<and> run_Multi env (multi a n) nm w = multi_thread_ctor env a n nm w
   \<and> (n \<noteq> 0 \<and> fits (functors_max_size env) (n - 1) \<and> fits (threads_max_size env) n
        \<longrightarrow>
        (case run_Multi env (multi a n) nm w of
           (Inl t, w1) \<Rightarrow> False
         | (Inr h, w1) \<Rightarrow>
             name h = nm
           \<and> length (threads h) = unat n
           \<and> pending (threads h) = map Element [0..<unat n - 1] @ [Caller a]
           \<and> functors h = replicate (unat n - 1) (object env a)
           \<and> started (trace w1) = started (trace w) @ pending (threads h)))"
proof (intro conjI impI)
  show "run a nm w = single_thread_ctor a nm w"
    by (simp add: run_def run_op_def)
  show "thread (fst (run a nm w)) = Shared_state (Caller a)"
    by (simp add: run_def run_op_def single_thread_ctor_eq)
  show "started (trace (snd (run a nm w))) = started (trace w) @ [Caller a]"
    by (simp add: run_def run_op_def single_thread_ctor_eq started_append)
  show "functor_ref (multi a n) = a" and "num (multi a n) = n"
    by (simp_all add: multi_def)
  show eq: "run_Multi env (multi a n) nm w = multi_thread_ctor env a n nm w"
    by (simp add: run_Multi_def run_Multi_op_def multi_def)
  assume b: "n \<noteq> 0 \<and> fits (functors_max_size env) (n - 1) \<and> fits (threads_max_size env) n"
  then have n: "n \<noteq> 0" and f: "fits (functors_max_size env) (n - 1)"
    and t: "fits (threads_max_size env) n"
    by simp_all
  have len: "Suc (unat n - 1) = unat n"
    using n by (rule unat_threads)
  show "case run_Multi env (multi a n) nm w of
           (Inl t, w1) \<Rightarrow> False
         | (Inr h, w1) \<Rightarrow>
             name h = nm
           \<and> length (threads h) = unat n
           \<and> pending (threads h) = map Element [0..<unat n - 1] @ [Caller a]
           \<and> functors h = replicate (unat n - 1) (object env a)
           \<and> started (trace w1) = started (trace w) @ pending (threads h)"
    unfolding eq multi_thread_ctor_eq [OF n f t]
    using len
    by (simp add: pending_append pending_comp started_append started_comp)
qed

text \<open>
  \<^verbatim>\<open>run\<close> on the functor 0, and on the request for two threads of it.
\<close>

theorem run_dispatch_witness:
  "(2 :: 64 word) \<noteq> 0
   \<and> fits (functors_max_size env_ok) (2 - 1)
   \<and> fits (threads_max_size env_ok) 2
   \<and> thread (fst (run 0 ''t'' start)) = Shared_state (Caller 0)
   \<and> \<not> isl (fst (run_Multi env_ok (multi 0 2) ''g'' start))
   \<and> pending (threads (projr (fst (run_Multi env_ok (multi 0 2) ''g'' start))))
       = [Element 0, Caller 0]
   \<and> started (trace (snd (run_Multi env_ok (multi 0 2) ''g'' start)))
       = [Element 0, Caller 0]"
proof -
  have h: "(2 :: 64 word) \<noteq> 0" by simp
  have f: "fits (functors_max_size env_ok) (2 - 1)"
    by (simp add: env_ok_def fits_def PTRDIFF_MAX_def)
  have r2: "fits (threads_max_size env_ok) 2"
    by (simp add: env_ok_def fits_def PTRDIFF_MAX_def)
  have upt: "[0..<1] = [0 :: nat]" by simp
  have st: "started (trace start) = []" by (simp add: start_def)
  note t = run_dispatch [where a = 0 and nm = "''g''" and w = start and n = 2 and env = env_ok]
  note u = run_dispatch [where a = 0 and nm = "''t''" and w = start and n = 2 and env = env_ok]
  obtain x w1 where r: "run_Multi env_ok (multi 0 2) ''g'' start = (x, w1)"
    by (cases "run_Multi env_ok (multi 0 2) ''g'' start")
  from t h f r2 r obtain h1 where x: "x = Inr h1"
    by (cases x) simp_all
  from t h f r2 r x have facts:
    "pending (threads h1) = map Element [0..<unat (2 :: 64 word) - 1] @ [Caller 0]"
    "started (trace w1) = started (trace start) @ pending (threads h1)"
    by simp_all
  have single: "thread (fst (run 0 ''t'' start)) = Shared_state (Caller 0)"
    by (rule u [THEN conjunct2, THEN conjunct1])
  show ?thesis
    using h f r2 facts single by (simp add: r x st upt)
qed

text \<open>
  Claim C10. Each of the three call operators of a request fails the assertion, and
  returns \<^verbatim>\<open>false\<close> when assertions are compiled out. \<^verbatim>\<open>run\<close> on a request never
  starts a unit on the request: when the group handle cannot be built it starts nothing,
  and otherwise it starts its units on the copies of the referenced functor and on the
  referenced functor itself and on nothing else. The request is only read for its two
  members.
\<close>

theorem Multi_request_not_invoked:
  "Multi_call_const False m x = Assertion_failed
   \<and> Multi_call_const True m x = Returns False
   \<and> Multi_call_ref False m y = Assertion_failed
   \<and> Multi_call_ref True m y = Returns False
   \<and> Multi_call_const_ref False m x z = Assertion_failed
   \<and> Multi_call_const_ref True m x z = Returns False
   \<and> (case run_Multi env m nm w of
         (Inl t, w1) \<Rightarrow> started (trace w1) = started (trace w)
       | (Inr h, w1) \<Rightarrow>
           started (trace w1)
             = started (trace w) @ map Element [0..<length (functors h)]
                 @ [Caller (functor_ref m)]
         \<and> list_all (\<lambda>f. f = object env (functor_ref m)) (functors h)
         \<and> threads h = map Shared_state (map Element [0..<length (functors h)]
                                            @ [Caller (functor_ref m)]))"
proof (intro conjI)
  show "case run_Multi env m nm w of
         (Inl t, w1) \<Rightarrow> started (trace w1) = started (trace w)
       | (Inr h, w1) \<Rightarrow>
           started (trace w1)
             = started (trace w) @ map Element [0..<length (functors h)]
                 @ [Caller (functor_ref m)]
         \<and> list_all (\<lambda>f. f = object env (functor_ref m)) (functors h)
         \<and> threads h = map Shared_state (map Element [0..<length (functors h)]
                                            @ [Caller (functor_ref m)])"
  proof (cases "fits (functors_max_size env) (num m - 1) \<and> fits (threads_max_size env) (num m)")
    case True
    then have f: "fits (functors_max_size env) (num m - 1)"
      and t: "fits (threads_max_size env) (num m)"
      by simp_all
    have n: "num m \<noteq> 0"
    proof
      assume "num m = 0"
      with f have "fits (functors_max_size env) (- 1)" by simp
      then show False by (simp add: no_room_for_SIZE_MAX)
    qed
    show ?thesis
      unfolding run_Multi_def run_Multi_op_def multi_thread_ctor_eq [OF n f t]
      by (simp add: started_append started_comp list_all_iff)
  next
    case False
    obtain x w1 where r: "multi_thread_ctor env (functor_ref m) (num m) nm w = (x, w1)"
      by (cases "multi_thread_ctor env (functor_ref m) (num m) nm w")
    from multi_thread_ctor_fails [OF False, of "functor_ref m" nm w]
    have "x = Inl Other" and "started (trace w1) = started (trace w)"
      by (simp_all add: r)
    then show ?thesis
      by (simp add: run_Multi_def run_Multi_op_def r)
  qed
qed (simp_all add: Multi_call_const_def Multi_call_ref_def Multi_call_const_ref_def)

text \<open>
  The request for two threads of the functor 0, and a request for \<^verbatim>\<open>SIZE_MAX\<close>
  threads, which starts nothing.
\<close>

theorem Multi_request_not_invoked_witness:
  "threads (projr (fst (run_Multi env_ok (multi 0 2) ''g'' start)))
       = [Shared_state (Element 0), Shared_state (Caller 0)]
   \<and> started (trace (snd (run_Multi env_ok (multi 0 (- 1)) ''g'' start))) = []
   \<and> Multi_call_const False (multi (0 :: nat) 2) () = Assertion_failed
   \<and> Multi_call_const True (multi (0 :: nat) 2) () = Returns False"
proof -
  have st: "started (trace start) = []" by (simp add: start_def)
  have ok: "fst (run_Multi env_ok (multi 0 2) ''g'' start) =
      Inr \<lparr>name = ''g'',
           threads = [Shared_state (Element 0), Shared_state (Caller 0)],
           functors = [()]\<rparr>"
    by (simp add: run_Multi_def run_Multi_op_def multi_def launch_two env_ok_def)
  have big: "\<not> (fits (functors_max_size env_ok) (- 1 - 1)
              \<and> fits (threads_max_size env_ok) (- 1))"
    by (simp add: no_room_for_SIZE_MAX)
  have none: "started (trace (snd (run_Multi env_ok (multi 0 (- 1)) ''g'' start))) = []"
    using multi_thread_ctor_fails(2) [OF big, of 0 "''g''" start]
    by (simp add: run_Multi_def run_Multi_op_def multi_def st)
  note t = Multi_request_not_invoked
    [where m = "multi (0 :: nat) 2" and x = "()" and y = "()" and z = "()"
       and env = env_ok and nm = "''g''" and w = start]
  from t have calls: "Multi_call_const False (multi (0 :: nat) 2) () = Assertion_failed"
    "Multi_call_const True (multi (0 :: nat) 2) () = Returns False"
    by simp_all
  show ?thesis
    using none calls by (simp add: ok)
qed

subsection \<open>The backend under interleaving: a lost registration\<close>

text \<open>
  Claim C2 fails on the code. Two threads register at the same time, from a null backend.
  When both test the pointer before either assigns it, both construct a backend; the
  second assignment replaces the first object, which is lost with the registration
  counted in it, and the count ends at 1 after two registrations. Run one after the
  other, the same two calls end with one backend and count 2. A thread running alone
  holds the mutex only between its third and fourth step: the construction comes before
  the lock is taken, the increment after it is released. After the lost registration the
  first of two unregistrations deletes the backend while a registration is live, and the
  second dereferences the null pointer.
\<close>

theorem registration_race:
  "run_schedule [0, 1, 0, 0, 0, 0, 1, 1, 1, 1]
     (\<lparr>heap = [], backend_ptr = None\<rparr>, [Reg_test, Reg_test]) =
     Some (\<lparr>heap = [Some \<lparr>obj_refcount = 1, obj_mutex = False\<rparr>,
                    Some \<lparr>obj_refcount = 1, obj_mutex = False\<rparr>],
            backend_ptr = Some 1\<rparr>, [Done, Done])
   \<and> run_schedule [0, 0, 0, 0, 0, 1, 1, 1, 1]
     (\<lparr>heap = [], backend_ptr = None\<rparr>, [Reg_test, Reg_test]) =
     Some (\<lparr>heap = [Some \<lparr>obj_refcount = 2, obj_mutex = False\<rparr>],
            backend_ptr = Some 0\<rparr>, [Done, Done])
   \<and> run_schedule [0, 0, 0]
     (\<lparr>heap = [], backend_ptr = None\<rparr>, [Reg_test]) =
     Some (\<lparr>heap = [Some \<lparr>obj_refcount = 0, obj_mutex = True\<rparr>],
            backend_ptr = Some 0\<rparr>, [Reg_unlock 0])
   \<and> run_schedule [0, 0, 0, 0]
     (\<lparr>heap = [], backend_ptr = None\<rparr>, [Reg_test]) =
     Some (\<lparr>heap = [Some \<lparr>obj_refcount = 0, obj_mutex = False\<rparr>],
            backend_ptr = Some 0\<rparr>, [Reg_inc])
   \<and> run_schedule [0, 1, 0, 0, 0, 0, 1, 1, 1, 1, 2, 2, 2, 2, 2, 2]
     (\<lparr>heap = [], backend_ptr = None\<rparr>, [Reg_test, Reg_test, Unreg_lock, Unreg_lock]) =
     Some (\<lparr>heap = [Some \<lparr>obj_refcount = 1, obj_mutex = False\<rparr>, None],
            backend_ptr = None\<rparr>, [Done, Done, Done, Unreg_lock])
   \<and> run_schedule [0, 1, 0, 0, 0, 0, 1, 1, 1, 1, 2, 2, 2, 2, 2, 2, 3]
     (\<lparr>heap = [], backend_ptr = None\<rparr>, [Reg_test, Reg_test, Unreg_lock, Unreg_lock]) =
     None"
  by (simp add: deref_def store_def Backend_ctor_def)

text \<open>
  Claim C6 fails on the code. Two registrations made at the same time from a null
  backend, followed by two unregistrations: a registration is lost, the first
  unregistration deletes the backend while a registration is live, and the second
  dereferences the null pointer. The same four calls made one after another end with the
  backend torn down once. An unregistration that overlaps a registration does the same
  harm: it finds the count at 0 and goes on to delete the backend, the registration
  counts itself in, the deletion follows, and the unregistration of that registration
  dereferences the null pointer.
\<close>

theorem teardown_with_live_registration:
  "run_schedule [0, 1, 0, 0, 0, 0, 1, 1, 1, 1, 2, 2, 2, 2, 2, 2]
     (\<lparr>heap = [], backend_ptr = None\<rparr>, [Reg_test, Reg_test, Unreg_lock, Unreg_lock]) =
     Some (\<lparr>heap = [Some \<lparr>obj_refcount = 1, obj_mutex = False\<rparr>, None],
            backend_ptr = None\<rparr>, [Done, Done, Done, Unreg_lock])
   \<and> run_schedule [0, 1, 0, 0, 0, 0, 1, 1, 1, 1, 2, 2, 2, 2, 2, 2, 3]
     (\<lparr>heap = [], backend_ptr = None\<rparr>, [Reg_test, Reg_test, Unreg_lock, Unreg_lock]) =
     None
   \<and> run_schedule [0, 0, 0, 0, 0, 1, 1, 1, 1, 1, 2, 2, 2, 2, 2, 2, 3, 3, 3, 3, 3, 3]
     (\<lparr>heap = [], backend_ptr = None\<rparr>, [Reg_test, Reg_test, Unreg_lock, Unreg_lock]) =
     Some (\<lparr>heap = [None], backend_ptr = None\<rparr>, [Done, Done, Done, Done])
   \<and> run_schedule [0, 0, 0, 0, 0, 1, 1, 1, 1, 2, 2, 2, 2, 1, 1]
     (\<lparr>heap = [], backend_ptr = None\<rparr>, [Reg_test, Unreg_lock, Reg_test, Unreg_lock]) =
     Some (\<lparr>heap = [None], backend_ptr = None\<rparr>, [Done, Done, Done, Unreg_lock])
   \<and> run_schedule [0, 0, 0, 0, 0, 1, 1, 1, 1, 2, 2, 2, 2, 1, 1, 3]
     (\<lparr>heap = [], backend_ptr = None\<rparr>, [Reg_test, Unreg_lock, Reg_test, Unreg_lock]) =
     None"
  by (simp add: deref_def store_def Backend_ctor_def)

text \<open>
  A thread that runs one of the two operations alone, from a state in which no thread is
  inside an operation, does what the sequential model says.
\<close>

lemma register_thread_alone:
  assumes "quiescent s" and "registry_of s = backend w"
  shows "\<exists>s1. run_schedule [0, 0, 0, 0, 0] (s, [Reg_test]) = Some (s1, [Done])
           \<and> quiescent s1
           \<and> registry_of s1 = backend (register_thread w)"
proof (cases "backend_ptr s")
  case None
  then have w: "backend w = None"
    using assms(2) by (simp add: registry_of_def deref_def)
  show ?thesis
    using None w
    by (simp add: deref_def store_def Backend_ctor_def quiescent_def registry_of_def
        register_thread_def emit_def)
next
  case (Some a)
  with assms(1) obtain b where b: "a < length (heap s)" "heap s ! a = Some b" "\<not> obj_mutex b"
    by (auto simp: quiescent_def deref_def split: if_splits option.splits)
  then have w: "backend w = Some \<lparr>refcount = obj_refcount b\<rparr>"
    using assms(2) Some by (simp add: registry_of_def deref_def)
  show ?thesis
    using Some b w
    by (simp add: deref_def store_def quiescent_def registry_of_def
        register_thread_def emit_def)
qed

lemma unregister_thread_alone:
  assumes "quiescent s" and "registry_of s = backend w"
  shows "(case run_schedule [0, 0, 0, 0, 0, 0] (s, [Unreg_lock]) of
            None \<Rightarrow> fst (unregister_thread w) = Undefined
          | Some (s1, pcs) \<Rightarrow>
              pcs = [Done] \<and> quiescent s1 \<and> fst (unregister_thread w) = Normal
            \<and> registry_of s1 = backend (snd (unregister_thread w)))"
proof (cases "backend_ptr s")
  case None
  then have w: "backend w = None"
    using assms(2) by (simp add: registry_of_def deref_def)
  show ?thesis
    using None w
    by (simp add: deref_def unregister_thread_def)
next
  case (Some a)
  with assms(1) obtain b where b: "a < length (heap s)" "heap s ! a = Some b" "\<not> obj_mutex b"
    by (auto simp: quiescent_def deref_def split: if_splits option.splits)
  then have w: "backend w = Some \<lparr>refcount = obj_refcount b\<rparr>"
    using assms(2) Some by (simp add: registry_of_def deref_def)
  show ?thesis
    using Some b w
    by (simp add: deref_def store_def quiescent_def registry_of_def
        unregister_thread_def emit_def Let_def)
qed


end
